theory Spec2Isabelle
  imports Main "HOL-Library.Word" "HOL-Library.Multiset"
begin

section \<open>The row-group layout of the XUL grid (nsGridRowGroupLayout.cpp)\<close>

text \<open>
  A shallow embedding of \<^verbatim>\<open>layout/xul/base/src/grid/nsGridRowGroupLayout.cpp\<close>.
  The file walks the direct children of a box, looks through scroll frames, and
  either delegates to the grid part (``monument'') that lays the child out or
  treats the child as one generated (``bogus'') row. Everything the file calls
  but does not define (the box interface, the grid, the base row layout, the
  other grid parts) is data of the model or a field of an environment record.
\<close>

subsection \<open>Machine types\<close>

text \<open>
  \<^verbatim>\<open>PRInt32\<close> and \<^verbatim>\<open>nscoord\<close> (a typedef of it) are 32-bit words:
  \<open>+\<close> wraps around and \<open>sint\<close> reads the signed value. \<^verbatim>\<open>nsresult\<close> is a
  32-bit status code and \<^verbatim>\<open>NS_OK\<close> is zero.
\<close>

type_synonym PRInt32 = "32 word"
type_synonym nscoord = "32 word"
type_synonym nsresult = "32 word"

definition NS_OK :: nsresult where
  "NS_OK = 0"

subsection \<open>Boxes\<close>

text \<open>
  What \<^verbatim>\<open>do_QueryInterface\<close> finds on the layout manager of a box: a layout that
  is no \<^verbatim>\<open>nsIGridPart\<close>, the row-group layout of this file, or another
  implementation of \<^verbatim>\<open>nsIGridPart\<close> (named by a number; its code is not in this
  file).
\<close>

datatype layout = PlainLayout | RowGroupLayout | GridPartLayout nat

text \<open>
  A box has an identity (its address), the answer to the query for
  \<^verbatim>\<open>nsIScrollableFrame\<close> (\<open>None\<close>: the box is no scroll frame; otherwise what
  \<^verbatim>\<open>GetScrolledFrame\<close> hands back), the result of \<^verbatim>\<open>GetLayoutManager\<close>
  (\<open>None\<close>: a null layout) and its children in sibling order
  (\<^verbatim>\<open>GetChildBox\<close>, then \<^verbatim>\<open>GetNextBox\<close> until null). The scrolled frame can
  be null, a frame that is no \<^verbatim>\<open>nsIBox\<close>, or a box.
\<close>

datatype box =
  Box (box_id: nat) (scrollFrame: "scrolled option") (layoutManager: "layout option")
      (childBoxes: "box list")
and scrolled = NoFrame | NonBoxFrame | BoxFrame box

text \<open>
  The two ways the C++ leaves defined behaviour: a member call through a null
  box pointer, and an access outside the caller's row buffer.
\<close>

datatype fault = NullDeref | BufferOverrun

subsection \<open>Row descriptors and the row buffer\<close>

text \<open>
  Of \<^verbatim>\<open>nsGridRow\<close> the file uses \<^verbatim>\<open>Init(box, isBogus)\<close> only, which stores the
  box and the flag.
\<close>

record nsGridRow =
  mBox :: "nat option"
  mIsBogus :: bool

definition Init :: "box \<Rightarrow> bool \<Rightarrow> nsGridRow" where
  "Init aBox aIsBogus = \<lparr>mBox = Some (box_id aBox), mIsBogus = aIsBogus\<rparr>"

text \<open>
  \<^verbatim>\<open>aRows[rowCount].Init(...)\<close>: the slot must lie inside the buffer; the
  index is the signed value of the counter.
\<close>

definition write_slot :: "nsGridRow list \<Rightarrow> PRInt32 \<Rightarrow> nsGridRow \<Rightarrow> fault + nsGridRow list" where
  "write_slot aRows rowCount r =
     (if 0 \<le> sint rowCount \<and> nat (sint rowCount) < length aRows
      then Inr (aRows[nat (sint rowCount) := r])
      else Inl BufferOverrun)"

text \<open>
  \<^verbatim>\<open>&aRows[rowCount]\<close>: the part of the buffer in front of the slot, which the
  callee cannot reach, and the part from the slot on, which it is given. A
  pointer to one past the last slot is allowed.
\<close>

definition slots_from :: "nsGridRow list \<Rightarrow> PRInt32 \<Rightarrow> fault + (nsGridRow list \<times> nsGridRow list)" where
  "slots_from aRows rowCount =
     (if 0 \<le> sint rowCount \<and> nat (sint rowCount) \<le> length aRows
      then Inr (take (nat (sint rowCount)) aRows, drop (nat (sint rowCount)) aRows)
      else Inl BufferOverrun)"

subsection \<open>The other grid parts\<close>

text \<open>
  Modelled from the spec: the implementations of \<^verbatim>\<open>nsIGridPart\<close> other than the
  row group (row, column, grid) are not in this file. Section 6 of the
  specification gives their interface: \<^verbatim>\<open>BuildRows\<close> writes descriptors from the
  start of the buffer it is handed and reports how many it wrote,
  \<^verbatim>\<open>CountRowsColumns\<close> updates the two counters, \<^verbatim>\<open>DirtyRows\<close> marks boxes
  dirty. A part is therefore given by the rows it writes for a box, its update of
  the counters, and the boxes it marks.
\<close>

record parts =
  part_CountRowsColumns :: "nat \<Rightarrow> box \<Rightarrow> PRInt32 \<times> PRInt32 \<Rightarrow> PRInt32 \<times> PRInt32"
  part_BuildRows :: "nat \<Rightarrow> box \<Rightarrow> nsGridRow list"
  part_DirtyRows :: "nat \<Rightarrow> box \<Rightarrow> nat set"

text \<open>
  The call of such a part's \<^verbatim>\<open>BuildRows\<close> on the slots it is handed: its rows
  go to the first slots, and it fails when they are more than the slots.
\<close>

definition part_write :: "nsGridRow list \<Rightarrow> nsGridRow list \<Rightarrow> fault + (nsGridRow list \<times> PRInt32)" where
  "part_write rows aRows =
     (if length rows \<le> length aRows
      then Inr (rows @ drop (length rows) aRows, word_of_nat (length rows))
      else Inl BufferOverrun)"

subsection \<open>CheckForScrollFrame\<close>

text \<open>
  The first component is what \<^verbatim>\<open>NS_ASSERTION\<close> prints (a diagnostic; the
  function goes on), the second the returned box pointer, \<open>None\<close> for null.
\<close>

definition CheckForScrollFrame :: "box \<Rightarrow> string list \<times> box option" where
  "CheckForScrollFrame aChild =
     (case scrollFrame aChild of
        Some scrolledFrame \<Rightarrow>
          (if scrolledFrame = NoFrame then [''Error no scroll frame!!''] else [],
           case scrolledFrame of BoxFrame b \<Rightarrow> Some b | _ \<Rightarrow> None)
      | None \<Rightarrow> ([], Some aChild))"

lemma CheckForScrollFrame_size:
  "snd (CheckForScrollFrame c) = Some d \<Longrightarrow> size d \<le> size c"
  by (cases c) (auto simp: CheckForScrollFrame_def split: option.splits scrolled.splits)

subsection \<open>DirtyRows\<close>

text \<open>
  The state is the set of boxes marked dirty; \<^verbatim>\<open>MarkDirty\<close> adds the box. The
  loop calls \<^verbatim>\<open>deepChild->GetLayoutManager\<close> with no null check.
\<close>

definition MarkDirty :: "box \<Rightarrow> nat set \<Rightarrow> nat set" where
  "MarkDirty aBox aState = insert (box_id aBox) aState"

function DirtyRows :: "parts \<Rightarrow> box option \<Rightarrow> nat set \<Rightarrow> fault + (nsresult \<times> nat set)"
  and DirtyRows_loop :: "parts \<Rightarrow> box list \<Rightarrow> nat set \<Rightarrow> fault + nat set"
where
  "DirtyRows E None aState = Inr (NS_OK, aState)"
| "DirtyRows E (Some aBox) aState =
     (case DirtyRows_loop E (childBoxes aBox) (MarkDirty aBox aState) of
        Inl f \<Rightarrow> Inl f
      | Inr s \<Rightarrow> Inr (NS_OK, s))"
| "DirtyRows_loop E [] aState = Inr aState"
| "DirtyRows_loop E (child # rest) aState =
     (case snd (CheckForScrollFrame child) of
        None \<Rightarrow> Inl NullDeref
      | Some deepChild \<Rightarrow>
          (case layoutManager deepChild of
             Some RowGroupLayout \<Rightarrow>
               (case DirtyRows E (Some deepChild) aState of
                  Inl f \<Rightarrow> Inl f
                | Inr (rv, s) \<Rightarrow> DirtyRows_loop E rest s)
           | Some (GridPartLayout p) \<Rightarrow>
               DirtyRows_loop E rest (aState \<union> part_DirtyRows E p deepChild)
           | _ \<Rightarrow> DirtyRows_loop E rest aState))"
  by pat_completeness auto
termination
  apply (relation "measure (\<lambda>x. case x of
      Inl (E, b, s) \<Rightarrow> (case b of None \<Rightarrow> 0 | Some bx \<Rightarrow> size bx)
    | Inr (E, cs, s) \<Rightarrow> size_list size cs)")
     apply (auto dest!: CheckForScrollFrame_size)
  subgoal for aBox by (cases aBox) auto
  done

subsection \<open>CountRowsColumns\<close>

function CountRowsColumns ::
    "parts \<Rightarrow> box option \<Rightarrow> PRInt32 \<Rightarrow> PRInt32 \<Rightarrow> fault + (nsresult \<times> PRInt32 \<times> PRInt32)"
  and CountRowsColumns_loop ::
    "parts \<Rightarrow> box list \<Rightarrow> PRInt32 \<Rightarrow> PRInt32 \<Rightarrow> fault + (PRInt32 \<times> PRInt32)"
where
  "CountRowsColumns E None aRowCount aComputedColumnCount =
     Inr (NS_OK, aRowCount, aComputedColumnCount)"
| "CountRowsColumns E (Some aBox) aRowCount aComputedColumnCount =
     (case CountRowsColumns_loop E (childBoxes aBox) aRowCount aComputedColumnCount of
        Inl f \<Rightarrow> Inl f
      | Inr (r, c) \<Rightarrow> Inr (NS_OK, r, c))"
| "CountRowsColumns_loop E [] aRowCount aComputedColumnCount =
     Inr (aRowCount, aComputedColumnCount)"
| "CountRowsColumns_loop E (child # rest) aRowCount aComputedColumnCount =
     (case snd (CheckForScrollFrame child) of
        None \<Rightarrow> Inl NullDeref
      | Some deepChild \<Rightarrow>
          (case layoutManager deepChild of
             Some RowGroupLayout \<Rightarrow>
               (case CountRowsColumns E (Some deepChild) aRowCount aComputedColumnCount of
                  Inl f \<Rightarrow> Inl f
                | Inr (rv, r, c) \<Rightarrow> CountRowsColumns_loop E rest r c)
           | Some (GridPartLayout p) \<Rightarrow>
               (case part_CountRowsColumns E p deepChild (aRowCount, aComputedColumnCount) of
                  (r, c) \<Rightarrow> CountRowsColumns_loop E rest r c)
           | _ \<Rightarrow> CountRowsColumns_loop E rest (aRowCount + 1) aComputedColumnCount))"
  by pat_completeness auto
termination
  apply (relation "measure (\<lambda>x. case x of
      Inl (E, b, r, c) \<Rightarrow> (case b of None \<Rightarrow> 0 | Some bx \<Rightarrow> size bx)
    | Inr (E, cs, r, c) \<Rightarrow> size_list size cs)")
      apply (auto dest!: CheckForScrollFrame_size)
  subgoal for aBox by (cases aBox) auto
  done

subsection \<open>BuildRows\<close>

text \<open>
  The buffer is the list of the caller's slots. The result is the buffer after
  the writes and the value stored to \<^verbatim>\<open>*aCount\<close>.
\<close>

function BuildRows ::
    "parts \<Rightarrow> box option \<Rightarrow> nsGridRow list \<Rightarrow> fault + (nsresult \<times> nsGridRow list \<times> PRInt32)"
  and BuildRows_loop ::
    "parts \<Rightarrow> box list \<Rightarrow> nsGridRow list \<Rightarrow> PRInt32 \<Rightarrow> fault + (nsGridRow list \<times> PRInt32)"
where
  "BuildRows E None aRows = Inr (NS_OK, aRows, 0)"
| "BuildRows E (Some aBox) aRows =
     (case BuildRows_loop E (childBoxes aBox) aRows 0 of
        Inl f \<Rightarrow> Inl f
      | Inr (rows, rowCount) \<Rightarrow> Inr (NS_OK, rows, rowCount))"
| "BuildRows_loop E [] aRows rowCount = Inr (aRows, rowCount)"
| "BuildRows_loop E (child # rest) aRows rowCount =
     (case snd (CheckForScrollFrame child) of
        None \<Rightarrow> Inl NullDeref
      | Some deepChild \<Rightarrow>
          (case layoutManager deepChild of
             Some RowGroupLayout \<Rightarrow>
               (case slots_from aRows rowCount of
                  Inl f \<Rightarrow> Inl f
                | Inr (front, slots) \<Rightarrow>
                    (case BuildRows E (Some deepChild) slots of
                       Inl f \<Rightarrow> Inl f
                     | Inr (rv, slots', cnt) \<Rightarrow>
                         BuildRows_loop E rest (front @ slots') (rowCount + cnt)))
           | Some (GridPartLayout p) \<Rightarrow>
               (case slots_from aRows rowCount of
                  Inl f \<Rightarrow> Inl f
                | Inr (front, slots) \<Rightarrow>
                    (case part_write (part_BuildRows E p deepChild) slots of
                       Inl f \<Rightarrow> Inl f
                     | Inr (slots', cnt) \<Rightarrow>
                         BuildRows_loop E rest (front @ slots') (rowCount + cnt)))
           | _ \<Rightarrow>
               (case write_slot aRows rowCount (Init child True) of
                  Inl f \<Rightarrow> Inl f
                | Inr rows \<Rightarrow> BuildRows_loop E rest rows (rowCount + 1))))"
  by pat_completeness auto
termination
  apply (relation "measure (\<lambda>x. case x of
      Inl (E, b, rows) \<Rightarrow> (case b of None \<Rightarrow> 0 | Some bx \<Rightarrow> size bx)
    | Inr (E, cs, rows, n) \<Rightarrow> size_list size cs)")
       apply (auto dest!: CheckForScrollFrame_size)
  subgoal for aBox by (cases aBox) auto
  done

subsection \<open>Sizes, the grid and what the row layout provides\<close>

record nsSize =
  width :: nscoord
  height :: nscoord

text \<open>
  The grid is consulted through its accessors only. The size accessors hand the
  size back through a reference that the caller has set to zero; the model takes
  the value left there. \<open>grid_id\<close> is the grid's identity.
\<close>

record nsGrid =
  grid_id :: nat
  GetExtraColumnCount :: "bool \<Rightarrow> PRInt32"
  GetColumnCount :: "bool \<Rightarrow> PRInt32"
  GetPrefRowHeight :: "PRInt32 \<Rightarrow> bool \<Rightarrow> nscoord"
  GetMaxRowHeight :: "PRInt32 \<Rightarrow> bool \<Rightarrow> nscoord"
  GetMinRowHeight :: "PRInt32 \<Rightarrow> bool \<Rightarrow> nscoord"

text \<open>
  What the file takes from its headers and its base class
  \<^verbatim>\<open>nsGridRowLayout\<close>: the value of the macro \<^verbatim>\<open>NS_INTRINSICSIZE\<close>, the
  lookup \<^verbatim>\<open>GetGrid\<close> (\<open>None\<close>: the grid pointer stays null),
  \<^verbatim>\<open>IsHorizontal\<close>, and the three size queries of the base class, each of which
  returns a status and may rewrite the size.
\<close>

record host =
  NS_INTRINSICSIZE :: nscoord
  GetGrid :: "box \<Rightarrow> (nsGrid \<times> PRInt32) option"
  IsHorizontal :: "box \<Rightarrow> bool"
  nsGridRowLayout_GetPrefSize :: "box \<Rightarrow> nsSize \<Rightarrow> nsresult \<times> nsSize"
  nsGridRowLayout_GetMaxSize :: "box \<Rightarrow> nsSize \<Rightarrow> nsresult \<times> nsSize"
  nsGridRowLayout_GetMinSize :: "box \<Rightarrow> nsSize \<Rightarrow> nsresult \<times> nsSize"

text \<open>
  Modelled from the spec: the macro \<^verbatim>\<open>GET_WIDTH(size, isRow)\<close> is defined in a
  header that is not in this file. Section 3 of the specification says the
  orientation flag selects which of ``width'' and ``height'' the aggregation
  helper affects; the macro names the width of a row.
  \<open>assign_WIDTH\<close> is a store through the reference \<^verbatim>\<open>nscoord& size\<close> bound to
  it.
\<close>

definition GET_WIDTH :: "nsSize \<Rightarrow> bool \<Rightarrow> nscoord" where
  "GET_WIDTH aSize aIsRow = (if aIsRow then width aSize else height aSize)"

definition assign_WIDTH :: "nsSize \<Rightarrow> bool \<Rightarrow> nscoord \<Rightarrow> nsSize" where
  "assign_WIDTH aSize aIsRow v = (if aIsRow then aSize\<lparr>width := v\<rparr> else aSize\<lparr>height := v\<rparr>)"

subsection \<open>AddWidth and the three size queries\<close>

definition AddWidth :: "host \<Rightarrow> nsSize \<Rightarrow> nscoord \<Rightarrow> bool \<Rightarrow> nsSize" where
  "AddWidth H aSize aSize2 aIsRow =
     (if GET_WIDTH aSize aIsRow = NS_INTRINSICSIZE H \<or> aSize2 = NS_INTRINSICSIZE H
      then assign_WIDTH aSize aIsRow (NS_INTRINSICSIZE H)
      else assign_WIDTH aSize aIsRow (GET_WIDTH aSize aIsRow + aSize2))"

lemma sint_Suc_below:
  fixes i n :: "32 word"
  assumes "sint i < sint n"
  shows "sint (i + 1) = sint i + 1"
proof -
  have "sint n < 2 ^ 31" using sint_lt [of n] by simp
  moreover have "- (2 ^ 31) \<le> sint i" using sint_ge [of i] by simp
  ultimately have "signed_take_bit 31 (sint i + 1) = sint i + 1"
    using assms by (intro signed_take_bit_int_eq_self) auto
  then show ?thesis by (simp add: sint_word_ariths)
qed

text \<open>
  The \<^verbatim>\<open>for\<close> loop that \<^verbatim>\<open>GetPrefSize\<close>, \<^verbatim>\<open>GetMaxSize\<close> and \<^verbatim>\<open>GetMinSize\<close>
  each contain, the same text but for the grid accessor, here the argument
  \<open>rowHeight\<close>. The result of \<^verbatim>\<open>GetColumnAt\<close> is not used.
\<close>

function extra_columns_loop ::
  "host \<Rightarrow> (PRInt32 \<Rightarrow> bool \<Rightarrow> nscoord) \<Rightarrow> bool \<Rightarrow> PRInt32 \<Rightarrow> PRInt32 \<Rightarrow> PRInt32 \<Rightarrow> nsSize \<Rightarrow> nsSize"
where
  "extra_columns_loop H rowHeight isRow extraColumns start i aSize =
     (if sint i < sint extraColumns
      then extra_columns_loop H rowHeight isRow extraColumns start (i + 1)
             (AddWidth H aSize (rowHeight (i + start) (\<not> isRow)) isRow)
      else aSize)"
  by pat_completeness auto
termination
  by (relation "measure (\<lambda>(H, rowHeight, isRow, extraColumns, start, i, aSize).
        nat (sint extraColumns - sint i))")
     (auto simp: sint_Suc_below)

declare extra_columns_loop.simps [simp del]

definition GetPrefSize :: "host \<Rightarrow> box \<Rightarrow> nsSize \<Rightarrow> nsresult \<times> nsSize" where
  "GetPrefSize H aBox aSize =
     (case nsGridRowLayout_GetPrefSize H aBox aSize of
        (rv, aSize1) \<Rightarrow>
          (case GetGrid H aBox of
             Some (grid, index) \<Rightarrow>
               (let isRow = IsHorizontal H aBox;
                    extraColumns = GetExtraColumnCount grid isRow;
                    start = GetColumnCount grid isRow - GetExtraColumnCount grid isRow
                in (rv, extra_columns_loop H (GetPrefRowHeight grid) isRow extraColumns start 0 aSize1))
           | None \<Rightarrow> (rv, aSize1)))"

definition GetMaxSize :: "host \<Rightarrow> box \<Rightarrow> nsSize \<Rightarrow> nsresult \<times> nsSize" where
  "GetMaxSize H aBox aSize =
     (case nsGridRowLayout_GetMaxSize H aBox aSize of
        (rv, aSize1) \<Rightarrow>
          (case GetGrid H aBox of
             Some (grid, index) \<Rightarrow>
               (let isRow = IsHorizontal H aBox;
                    extraColumns = GetExtraColumnCount grid isRow;
                    start = GetColumnCount grid isRow - GetExtraColumnCount grid isRow
                in (rv, extra_columns_loop H (GetMaxRowHeight grid) isRow extraColumns start 0 aSize1))
           | None \<Rightarrow> (rv, aSize1)))"

definition GetMinSize :: "host \<Rightarrow> box \<Rightarrow> nsSize \<Rightarrow> nsresult \<times> nsSize" where
  "GetMinSize H aBox aSize =
     (case nsGridRowLayout_GetMinSize H aBox aSize of
        (rv, aSize1) \<Rightarrow>
          (case GetGrid H aBox of
             Some (grid, index) \<Rightarrow>
               (let isRow = IsHorizontal H aBox;
                    extraColumns = GetExtraColumnCount grid isRow;
                    start = GetColumnCount grid isRow - GetExtraColumnCount grid isRow
                in (rv, extra_columns_loop H (GetMinRowHeight grid) isRow extraColumns start 0 aSize1))
           | None \<Rightarrow> (rv, aSize1)))"

subsection \<open>ChildAddedOrRemoved\<close>

text \<open>
  Modelled from the spec: \<^verbatim>\<open>nsGrid::RowAddedOrRemoved\<close> is not in this file.
  Section 4.5 of the specification: the grid is notified ``that a row (or column)
  changed at that index''. The state is the list of notifications the grids have
  received, oldest first: the grid, the index and the orientation.
\<close>

type_synonym notifications = "(nat \<times> PRInt32 \<times> bool) list"

definition RowAddedOrRemoved :: "nsGrid \<Rightarrow> PRInt32 \<Rightarrow> bool \<Rightarrow> notifications \<Rightarrow> notifications" where
  "RowAddedOrRemoved grid index isRow aState = aState @ [(grid_id grid, index, isRow)]"

definition ChildAddedOrRemoved :: "host \<Rightarrow> box \<Rightarrow> notifications \<Rightarrow> nsresult \<times> notifications" where
  "ChildAddedOrRemoved H aBox aState =
     (let found = GetGrid H aBox;
          isRow = IsHorizontal H aBox
      in case found of
           Some (grid, index) \<Rightarrow> (NS_OK, RowAddedOrRemoved grid index isRow aState)
         | None \<Rightarrow> (NS_OK, aState))"

section \<open>What the claims speak of\<close>

text \<open>
  The definitions of this section are not translations of code. They say, in
  the words of the specification, what the traversals are claimed to compute, so
  that the theorems can compare the code with them.
\<close>

lemma size_childBoxes: "size_list size (childBoxes b) < size b"
  by (cases b) auto

lemma size_deep_children:
  "snd (CheckForScrollFrame c) = Some d \<Longrightarrow> size_list size (childBoxes d) < Suc (size c + n)"
  using CheckForScrollFrame_size [of c d] size_childBoxes [of d] by simp

lemma size_deep_grandchild:
  "snd (CheckForScrollFrame c) = Some d \<Longrightarrow> g \<in> set (childBoxes d) \<Longrightarrow> size g < size c"
  using CheckForScrollFrame_size [of c d] size_childBoxes [of d]
    size_list_estimation' [of g "childBoxes d" "size g" size]
  by simp

text \<open>
  Every child that a traversal of these siblings visits, at every depth of nested
  row groups, has an effective child: no scroll frame on the way is without a
  scrolled box.
\<close>

function traversable :: "box list \<Rightarrow> bool" where
  "traversable [] = True"
| "traversable (child # rest) =
     ((case snd (CheckForScrollFrame child) of
         None \<Rightarrow> False
       | Some deepChild \<Rightarrow>
           (case layoutManager deepChild of
              Some RowGroupLayout \<Rightarrow> traversable (childBoxes deepChild)
            | _ \<Rightarrow> True))
      \<and> traversable rest)"
  by pat_completeness auto
termination
  by (relation "measure (size_list size)")
     (auto simp: size_deep_children)

text \<open>
  Section 4.3 of the specification: a child that is no monument stands for one
  descriptor of the child itself, marked bogus; a monument stands for the rows it
  builds. An absent effective child stands for no row.
\<close>

function child_rows :: "parts \<Rightarrow> box \<Rightarrow> nsGridRow list" where
  "child_rows E child =
     (case snd (CheckForScrollFrame child) of
        None \<Rightarrow> []
      | Some deepChild \<Rightarrow>
          (case layoutManager deepChild of
             Some RowGroupLayout \<Rightarrow> concat (map (child_rows E) (childBoxes deepChild))
           | Some (GridPartLayout p) \<Rightarrow> part_BuildRows E p deepChild
           | _ \<Rightarrow> [Init child True]))"
  by pat_completeness auto
termination
  by (relation "measure (\<lambda>(E, c). size c)")
     (auto simp: size_deep_grandchild)

declare child_rows.simps [simp del]

definition logical_rows :: "parts \<Rightarrow> box \<Rightarrow> nsGridRow list" where
  "logical_rows E aBox = concat (map (child_rows E) (childBoxes aBox))"

text \<open>
  Section 4.6 of the specification: the boxes marked on behalf of one direct
  child, which are those its monument marks and none for a bogus child.
\<close>

function forwarded_marks :: "parts \<Rightarrow> box \<Rightarrow> nat set" where
  "forwarded_marks E child =
     (case snd (CheckForScrollFrame child) of
        None \<Rightarrow> {}
      | Some deepChild \<Rightarrow>
          (case layoutManager deepChild of
             Some RowGroupLayout \<Rightarrow>
               insert (box_id deepChild)
                 (\<Union> (set (map (forwarded_marks E) (childBoxes deepChild))))
           | Some (GridPartLayout p) \<Rightarrow> part_DirtyRows E p deepChild
           | _ \<Rightarrow> {}))"
  by pat_completeness auto
termination
  by (relation "measure (\<lambda>(E, c). size c)")
     (auto simp: size_deep_grandchild)

declare forwarded_marks.simps [simp del]

text \<open>
  The other grid parts keep the invariant of section 4.4 themselves: counting
  adds to the row counter the number of rows that building writes.
\<close>

definition parts_consistent :: "parts \<Rightarrow> bool" where
  "parts_consistent E =
     (\<forall>p b r c. fst (part_CountRowsColumns E p b (r, c)) =
        r + word_of_nat (length (part_BuildRows E p b)))"

text \<open>A child whose effective child exists and has no grid part as its layout.\<close>

definition is_bogus :: "box \<Rightarrow> bool" where
  "is_bogus child =
     (case snd (CheckForScrollFrame child) of
        None \<Rightarrow> False
      | Some deepChild \<Rightarrow>
          layoutManager deepChild = None \<or> layoutManager deepChild = Some PlainLayout)"

text \<open>
  Section 4.2 of the specification: the indices of the extra columns, the last
  \<open>GetExtraColumnCount\<close> of the \<open>GetColumnCount\<close> columns, and the aggregation
  of a list of sizes into one component of a size.
\<close>

definition extra_columns :: "nsGrid \<Rightarrow> bool \<Rightarrow> PRInt32 list" where
  "extra_columns grid isRow =
     map (\<lambda>k. GetColumnCount grid isRow - GetExtraColumnCount grid isRow + word_of_nat k)
       [0..<nat (sint (GetExtraColumnCount grid isRow))]"

definition fold_sizes :: "host \<Rightarrow> bool \<Rightarrow> nsSize \<Rightarrow> nscoord list \<Rightarrow> nsSize" where
  "fold_sizes H isRow aSize sizes = foldl (\<lambda>acc s. AddWidth H acc s isRow) aSize sizes"

section \<open>Example inputs\<close>

text \<open>
  A grid part that acts as a row of cells: it builds one row for its box, counts
  it, raises the column count to the number of its cells, and marks its box.
\<close>

definition row_parts :: parts where
  "row_parts =
     \<lparr>part_CountRowsColumns =
        (\<lambda>p b (r, c). (r + 1, if c < word_of_nat (length (childBoxes b))
                                then word_of_nat (length (childBoxes b)) else c)),
      part_BuildRows = (\<lambda>p b. [Init b False]),
      part_DirtyRows = (\<lambda>p b. {box_id b})\<rparr>"

text \<open>
  A grid part that acts as a grid nested in a grid: one bogus row for its box, the
  column count left alone, nothing marked.
\<close>

definition nested_grid_parts :: parts where
  "nested_grid_parts =
     \<lparr>part_CountRowsColumns = (\<lambda>p b (r, c). (r + 1, c)),
      part_BuildRows = (\<lambda>p b. [Init b True]),
      part_DirtyRows = (\<lambda>p b. {})\<rparr>"

text \<open>
  A row group (box 10) with a scroll frame (box 11) around a nested row group
  (box 12) of two plain boxes, a row of two cells (box 15), and a plain box (box 18).
\<close>

definition example_group :: box where
  "example_group =
     Box 10 None (Some RowGroupLayout)
       [Box 11 (Some (BoxFrame
           (Box 12 None (Some RowGroupLayout)
              [Box 13 None None [], Box 14 None (Some PlainLayout) []]))) None [],
        Box 15 None (Some (GridPartLayout 0)) [Box 16 None None [], Box 17 None None []],
        Box 18 None None []]"

text \<open>The same group with the children in another order.\<close>

definition example_shuffled :: "box list" where
  "example_shuffled =
       [Box 18 None None [],
        Box 11 (Some (BoxFrame
           (Box 12 None (Some RowGroupLayout)
              [Box 13 None None [], Box 14 None (Some PlainLayout) []]))) None [],
        Box 15 None (Some (GridPartLayout 0)) [Box 16 None None [], Box 17 None None []]]"

text \<open>Three plain children.\<close>

definition plain_group :: box where
  "plain_group =
     Box 20 None (Some RowGroupLayout) [Box 21 None None [], Box 22 None None [], Box 23 None None []]"

text \<open>A group whose first child is a scroll frame with no scrolled frame.\<close>

definition broken_group :: box where
  "broken_group =
     Box 30 None (Some RowGroupLayout) [Box 31 (Some NoFrame) None [], Box 32 None None []]"

text \<open>
  The two scenarios of section 8 of the specification: a row group with a nested
  row group of two plain boxes and one plain box of its own; and a row group with
  a scroll frame around a nested row group and a plain box that has a child.
\<close>

definition scenario_rows :: box where
  "scenario_rows =
     Box 40 None (Some RowGroupLayout)
       [Box 41 None (Some RowGroupLayout) [Box 42 None None [], Box 43 None None []],
        Box 44 None None []]"

definition scenario_dirty :: box where
  "scenario_dirty =
     Box 50 None (Some RowGroupLayout)
       [Box 51 (Some (BoxFrame (Box 52 None (Some RowGroupLayout) [Box 53 None None []]))) None [],
        Box 54 None None [Box 55 None (Some RowGroupLayout) []]]"

definition empty_row :: nsGridRow where
  "empty_row = \<lparr>mBox = None, mIsBogus = False\<rparr>"

text \<open>
  A grid of five columns, the last two of them extra, whose extra columns have
  the sizes 10 and \<open>s\<close>; a host in which the box 10 belongs to that grid and
  no other box to any, boxes are horizontal, the sentinel is \<open>2 ^ 30 = 1073741824\<close>, and the
  base class reports the width \<open>base\<close>.
\<close>

definition example_grid :: "nscoord \<Rightarrow> nsGrid" where
  "example_grid s =
     \<lparr>grid_id = 7,
      GetExtraColumnCount = (\<lambda>isRow. 2),
      GetColumnCount = (\<lambda>isRow. 5),
      GetPrefRowHeight = (\<lambda>i isHorizontal. if i = 3 then 10 else if i = 4 then s else 0),
      GetMaxRowHeight = (\<lambda>i isHorizontal. if i = 3 then 10 else if i = 4 then s else 0),
      GetMinRowHeight = (\<lambda>i isHorizontal. if i = 3 then 10 else if i = 4 then s else 0)\<rparr>"

definition example_host :: "nscoord \<Rightarrow> nscoord \<Rightarrow> host" where
  "example_host base s =
     \<lparr>NS_INTRINSICSIZE = 1073741824,
      GetGrid = (\<lambda>b. if box_id b = 10 then Some (example_grid s, 4) else None),
      IsHorizontal = (\<lambda>b. True),
      nsGridRowLayout_GetPrefSize = (\<lambda>b s. (NS_OK, \<lparr>width = base, height = 40\<rparr>)),
      nsGridRowLayout_GetMaxSize = (\<lambda>b s. (NS_OK, \<lparr>width = base, height = 40\<rparr>)),
      nsGridRowLayout_GetMinSize = (\<lambda>b s. (NS_OK, \<lparr>width = base, height = 40\<rparr>))\<rparr>"

section \<open>Lemmas\<close>

subsection \<open>The loops of the traversals\<close>

lemma DirtyRows_loop_eq:
  "DirtyRows_loop E cs st =
     (if traversable cs then Inr (st \<union> \<Union> (set (map (forwarded_marks E) cs))) else Inl NullDeref)"
proof (induction cs arbitrary: st rule: traversable.induct)
  case 1
  show ?case by simp
next
  case (2 child rest)
  show ?case
  proof (cases "snd (CheckForScrollFrame child)")
    case None
    then show ?thesis by simp
  next
    case (Some d)
    show ?thesis
    proof (cases "layoutManager d = Some RowGroupLayout")
      case True
      with Some 2 show ?thesis
        by (auto simp: MarkDirty_def forwarded_marks.simps [of E child] split: sum.splits)
    next
      case False
      with Some 2 show ?thesis
        by (auto simp: forwarded_marks.simps [of E child] split: option.splits layout.splits)
    qed
  qed
qed

lemma traversable_set: "traversable cs = (\<forall>c\<in>set cs. traversable [c])"
  by (induction cs) (auto split: option.splits layout.splits)

lemma CountRowsColumns_loop_ok:
  "traversable cs \<Longrightarrow> \<exists>r' c'. CountRowsColumns_loop E cs r c = Inr (r', c')"
proof (induction cs arbitrary: r c rule: traversable.induct)
  case 1
  then show ?case by simp
next
  case (2 child rest)
  then obtain d where d: "snd (CheckForScrollFrame child) = Some d"
    by (auto split: option.splits)
  show ?case
  proof (cases "layoutManager d = Some RowGroupLayout")
    case True
    with d 2 have "traversable (childBoxes d)" "traversable rest" by auto
    with 2 d True obtain r1 c1 where
      "CountRowsColumns_loop E (childBoxes d) r c = Inr (r1, c1)" by blast
    moreover from 2 d True \<open>traversable rest\<close> obtain r2 c2 where
      "CountRowsColumns_loop E rest r1 c1 = Inr (r2, c2)" by blast
    ultimately show ?thesis using d True by simp
  next
    case False
    with d 2 have "traversable rest" by auto
    with d 2 False show ?thesis
      by (auto split: option.splits layout.splits prod.splits)
  qed
qed

lemma CountRowsColumns_loop_fault:
  "\<not> traversable cs \<Longrightarrow> CountRowsColumns_loop E cs r c = Inl NullDeref"
proof (induction cs arbitrary: r c rule: traversable.induct)
  case 1
  then show ?case by simp
next
  case (2 child rest)
  show ?case
  proof (cases "snd (CheckForScrollFrame child)")
    case None
    then show ?thesis by simp
  next
    case (Some d)
    show ?thesis
    proof (cases "layoutManager d = Some RowGroupLayout")
      case True
      show ?thesis
      proof (cases "traversable (childBoxes d)")
        case t: True
        then obtain r1 c1 where "CountRowsColumns_loop E (childBoxes d) r c = Inr (r1, c1)"
          using CountRowsColumns_loop_ok by blast
        with Some True t 2 show ?thesis by auto
      next
        case f: False
        with Some True 2 show ?thesis by auto
      qed
    next
      case False
      with Some 2 show ?thesis
        by (auto split: option.splits layout.splits prod.splits)
    qed
  qed
qed

lemma CountRowsColumns_loop_rows:
  "parts_consistent E \<Longrightarrow> CountRowsColumns_loop E cs r c = Inr (r', c') \<Longrightarrow>
     r' = r + word_of_nat (length (concat (map (child_rows E) cs)))"
proof (induction cs arbitrary: r c r' c' rule: traversable.induct)
  case 1
  then show ?case by simp
next
  case (2 child rest)
  note pc = "2.prems"(1) and run = "2.prems"(2)
  from run obtain d where d: "snd (CheckForScrollFrame child) = Some d"
    by (auto split: option.splits)
  show ?case
  proof (cases "layoutManager d")
    case None
    with d run have "CountRowsColumns_loop E rest (r + 1) c = Inr (r', c')" by simp
    from "2.IH"(2) [OF pc this] show ?thesis using d None
      by (simp add: child_rows.simps [of E child] add.assoc)
  next
    case (Some l)
    show ?thesis
    proof (cases l)
      case PlainLayout
      with Some d run have "CountRowsColumns_loop E rest (r + 1) c = Inr (r', c')" by simp
      from "2.IH"(2) [OF pc this] show ?thesis using d Some PlainLayout
        by (simp add: child_rows.simps [of E child] add.assoc)
    next
      case RowGroupLayout
      with Some d run obtain r1 c1 where
        inner: "CountRowsColumns_loop E (childBoxes d) r c = Inr (r1, c1)" and
        after: "CountRowsColumns_loop E rest r1 c1 = Inr (r', c')"
        by (auto split: sum.splits)
      from "2.IH"(1) [OF d Some RowGroupLayout pc inner] "2.IH"(2) [OF pc after]
      show ?thesis using d Some RowGroupLayout
        by (simp add: child_rows.simps [of E child] add.assoc)
    next
      case (GridPartLayout p)
      with Some d run obtain r1 c1 where
        inner: "part_CountRowsColumns E p d (r, c) = (r1, c1)" and
        after: "CountRowsColumns_loop E rest r1 c1 = Inr (r', c')"
        by (auto split: prod.splits)
      from inner pc have "r1 = r + word_of_nat (length (part_BuildRows E p d))"
        unfolding parts_consistent_def by (metis fst_conv)
      with "2.IH"(2) [OF pc after] show ?thesis using d Some GridPartLayout
        by (simp add: child_rows.simps [of E child] add.assoc)
    qed
  qed
qed

subsection \<open>Writing into the buffer\<close>

lemma sint_word_of_nat:
  assumes "n < 2 ^ 31"
  shows "sint (word_of_nat n :: 32 word) = int n"
proof -
  have "int n < 2 ^ 31" using assms by (metis of_nat_less_iff of_nat_numeral of_nat_power)
  then have "signed_take_bit 31 (int n) = int n"
    by (intro signed_take_bit_int_eq_self) auto
  then show ?thesis by (simp add: signed_of_nat)
qed

lemma write_slot_of_nat:
  "n < 2 ^ 31 \<Longrightarrow>
   write_slot aRows (word_of_nat n) r = (if n < length aRows then Inr (aRows[n := r]) else Inl BufferOverrun)"
  by (simp add: write_slot_def sint_word_of_nat)

lemma slots_from_of_nat:
  "n < 2 ^ 31 \<Longrightarrow>
   slots_from aRows (word_of_nat n) =
     (if n \<le> length aRows then Inr (take n aRows, drop n aRows) else Inl BufferOverrun)"
  by (simp add: slots_from_def sint_word_of_nat)

lemma BuildRows_loop_exact:
  "traversable cs \<Longrightarrow> n + length (concat (map (child_rows E) cs)) \<le> length aRows \<Longrightarrow>
   n + length (concat (map (child_rows E) cs)) < 2 ^ 31 \<Longrightarrow>
   BuildRows_loop E cs aRows (word_of_nat n) =
     Inr (take n aRows @ concat (map (child_rows E) cs)
            @ drop (n + length (concat (map (child_rows E) cs))) aRows,
          word_of_nat (n + length (concat (map (child_rows E) cs))))"
proof (induction cs arbitrary: n aRows rule: traversable.induct)
  case 1
  then show ?case by simp
next
  case (2 child rest)
  note trav = "2.prems"(1) and fits = "2.prems"(2) and small = "2.prems"(3)
  from trav obtain d where d: "snd (CheckForScrollFrame child) = Some d"
    by (auto split: option.splits)
  from trav have trest: "traversable rest" by simp
  let ?here = "child_rows E child"
  let ?rest = "concat (map (child_rows E) rest)"
  have split: "concat (map (child_rows E) (child # rest)) = ?here @ ?rest" by simp
  from small have nsmall: "n < 2 ^ 31" by simp
  show ?case
  proof (cases "layoutManager d = Some RowGroupLayout")
    case True
    then have here: "?here = concat (map (child_rows E) (childBoxes d))"
      using d by (simp add: child_rows.simps [of E child])
    from trav d True have tin: "traversable (childBoxes d)" by simp
    from fits have nle: "n \<le> length aRows" by simp
    have inner: "BuildRows_loop E (childBoxes d) (drop n aRows) (word_of_nat 0) =
        Inr (take 0 (drop n aRows) @ ?here @ drop (0 + length ?here) (drop n aRows),
             word_of_nat (0 + length ?here))"
      unfolding here
      using fits small
      by (intro "2.IH"(1) [OF d True refl tin]) (simp_all add: here)
    let ?buf = "take n aRows @ ?here @ drop (n + length ?here) aRows"
    have len: "length ?buf = length aRows" using fits by simp
    have after: "BuildRows_loop E rest ?buf (word_of_nat (n + length ?here)) =
        Inr (take (n + length ?here) ?buf @ ?rest @ drop (n + length ?here + length ?rest) ?buf,
             word_of_nat (n + length ?here + length ?rest))"
      using fits small by (intro "2.IH"(2) [OF trest]) (simp_all add: len)
    have tk: "take (n + length ?here) ?buf = take n aRows @ ?here"
      using fits by simp
    have dr: "drop (n + length ?here + length ?rest) ?buf = drop (n + length ?here + length ?rest) aRows"
      using fits by (simp add: ac_simps)
    show ?thesis
      using d True nle inner after
      by (simp add: slots_from_of_nat [OF nsmall] tk dr ac_simps)
  next
    case False
    show ?thesis
    proof (cases "\<exists>p. layoutManager d = Some (GridPartLayout p)")
      case True
      then obtain p where p: "layoutManager d = Some (GridPartLayout p)" by blast
      then have here: "?here = part_BuildRows E p d"
        using d by (simp add: child_rows.simps [of E child])
      from fits have nle: "n \<le> length aRows" by simp
      let ?buf = "take n aRows @ ?here @ drop (n + length ?here) aRows"
      have len: "length ?buf = length aRows" using fits by simp
      have after: "BuildRows_loop E rest ?buf (word_of_nat (n + length ?here)) =
          Inr (take (n + length ?here) ?buf @ ?rest @ drop (n + length ?here + length ?rest) ?buf,
               word_of_nat (n + length ?here + length ?rest))"
        using fits small by (intro "2.IH"(2) [OF trest]) (simp_all add: len)
      have tk: "take (n + length ?here) ?buf = take n aRows @ ?here"
        using fits by simp
      have dr: "drop (n + length ?here + length ?rest) ?buf = drop (n + length ?here + length ?rest) aRows"
        using fits by (simp add: ac_simps)
      have pw: "part_write (part_BuildRows E p d) (drop n aRows) =
          Inr (?here @ drop (n + length ?here) aRows, word_of_nat (length ?here))"
        using fits by (simp add: part_write_def here ac_simps)
      show ?thesis
        using d p nle pw after
        by (simp add: slots_from_of_nat [OF nsmall] tk dr ac_simps here)
    next
      case nopart: False
      with False have bogus: "layoutManager d = None \<or> layoutManager d = Some PlainLayout"
        by (cases "layoutManager d") (auto intro: layout.exhaust)
      then have here: "?here = [Init child True]"
        using d by (auto simp: child_rows.simps [of E child])
      from fits have nlt: "n < length aRows" by (simp add: here)
      let ?buf = "aRows[n := Init child True]"
      have after: "BuildRows_loop E rest ?buf (word_of_nat (Suc n)) =
          Inr (take (Suc n) ?buf @ ?rest @ drop (Suc n + length ?rest) ?buf,
               word_of_nat (Suc n + length ?rest))"
        using fits small by (intro "2.IH"(2) [OF trest]) (simp_all add: here)
      have w1: "(word_of_nat n :: 32 word) + 1 = word_of_nat (Suc n)" by simp
      show ?thesis
        using d bogus nlt after
        by (auto simp: write_slot_of_nat [OF nsmall] here take_Suc_conv_app_nth simp del: of_nat_Suc
            simp add: w1)
    qed
  qed
qed


lemma BuildRows_loop_returns:
  "BuildRows_loop E cs aRows (word_of_nat n) = Inr res \<Longrightarrow> n \<le> length aRows \<Longrightarrow>
   n + length (concat (map (child_rows E) cs)) < 2 ^ 31 \<Longrightarrow>
   traversable cs \<and> n + length (concat (map (child_rows E) cs)) \<le> length aRows"
proof (induction cs arbitrary: n aRows res rule: traversable.induct)
  case 1
  then show ?case by simp
next
  case (2 child rest)
  note run = "2.prems"(1) and nle = "2.prems"(2) and small = "2.prems"(3)
  from run obtain d where d: "snd (CheckForScrollFrame child) = Some d"
    by (auto split: option.splits)
  let ?here = "child_rows E child"
  let ?rest = "concat (map (child_rows E) rest)"
  from small have nsmall: "n < 2 ^ 31" by simp
  show ?case
  proof (cases "layoutManager d = Some RowGroupLayout")
    case True
    then have here: "?here = concat (map (child_rows E) (childBoxes d))"
      using d by (simp add: child_rows.simps [of E child])
    from run d True nle obtain slots cnt where
      inner: "BuildRows_loop E (childBoxes d) (drop n aRows) (word_of_nat 0) = Inr (slots, cnt)" and
      after: "BuildRows_loop E rest (take n aRows @ slots) (word_of_nat n + cnt) = Inr res"
      by (auto simp: slots_from_of_nat [OF nsmall] split: sum.splits)
    have "traversable (childBoxes d) \<and> 0 + length ?here \<le> length (drop n aRows)"
      unfolding here using small
      by (intro "2.IH"(1) [OF d True refl inner]) (simp_all add: here)
    then have tin: "traversable (childBoxes d)" and fit: "n + length ?here \<le> length aRows"
      using nle by auto
    have "BuildRows_loop E (childBoxes d) (drop n aRows) (word_of_nat 0) =
        Inr (take 0 (drop n aRows) @ ?here @ drop (0 + length ?here) (drop n aRows),
             word_of_nat (0 + length ?here))"
      unfolding here using fit small
      by (intro BuildRows_loop_exact [OF tin]) (simp_all add: here)
    with inner have slots: "slots = ?here @ drop (n + length ?here) aRows"
      and cnt: "cnt = word_of_nat (length ?here)"
      by (simp_all add: ac_simps)
    let ?buf = "take n aRows @ ?here @ drop (n + length ?here) aRows"
    have len: "length ?buf = length aRows" using fit by simp
    from after have "BuildRows_loop E rest ?buf (word_of_nat (n + length ?here)) = Inr res"
      by (simp add: slots cnt)
    then have "traversable rest \<and> (n + length ?here) + length ?rest \<le> length ?buf"
      using small fit by (intro "2.IH"(2)) (simp_all add: len)
    then show ?thesis using d True tin len by (simp add: ac_simps)
  next
    case False
    show ?thesis
    proof (cases "\<exists>p. layoutManager d = Some (GridPartLayout p)")
      case True
      then obtain p where p: "layoutManager d = Some (GridPartLayout p)" by blast
      then have here: "?here = part_BuildRows E p d"
        using d by (simp add: child_rows.simps [of E child])
      from run d p nle have fit: "n + length ?here \<le> length aRows"
        and after: "BuildRows_loop E rest (take n aRows @ ?here @ drop (n + length ?here) aRows)
                      (word_of_nat (n + length ?here)) = Inr res"
        by (auto simp: slots_from_of_nat [OF nsmall] part_write_def here ac_simps
            split: sum.splits if_splits)
      let ?buf = "take n aRows @ ?here @ drop (n + length ?here) aRows"
      have len: "length ?buf = length aRows" using fit by simp
      from after have "traversable rest \<and> (n + length ?here) + length ?rest \<le> length ?buf"
        using small fit by (intro "2.IH"(2)) (simp_all add: len)
      then show ?thesis using d p len by (simp add: ac_simps)
    next
      case nopart: False
      with False have bogus: "layoutManager d = None \<or> layoutManager d = Some PlainLayout"
        by (cases "layoutManager d") (auto intro: layout.exhaust)
      then have here: "?here = [Init child True]"
        using d by (auto simp: child_rows.simps [of E child])
      have w1: "(word_of_nat n :: 32 word) + 1 = word_of_nat (Suc n)" by simp
      from run d bogus have nlt: "n < length aRows"
        and after: "BuildRows_loop E rest (aRows[n := Init child True]) (word_of_nat (Suc n)) = Inr res"
        by (auto simp: write_slot_of_nat [OF nsmall] w1 simp del: of_nat_Suc
            split: sum.splits if_splits)
      from after have "traversable rest \<and> Suc n + length ?rest \<le> length (aRows[n := Init child True])"
        using small nlt by (intro "2.IH"(2)) (simp_all add: here)
      then show ?thesis using d bogus by (auto simp: here)
    qed
  qed
qed

subsection \<open>The loop over the extra columns\<close>

lemma word_of_nat_sint:
  fixes i :: "32 word"
  assumes "0 \<le> sint i"
  shows "word_of_nat (nat (sint i)) = i"
proof -
  have "(word_of_nat (nat (sint i)) :: 32 word) = word_of_int (int (nat (sint i)))"
    by (simp only: of_int_of_nat_eq)
  also have "\<dots> = word_of_int (sint i)" using assms by simp
  also have "\<dots> = i" by simp
  finally show ?thesis .
qed

lemma extra_columns_loop_fold:
  "0 \<le> sint i \<Longrightarrow>
   extra_columns_loop H rowHeight isRow extraColumns start i aSize =
     fold_sizes H isRow aSize
       (map (\<lambda>k. rowHeight (start + word_of_nat k) (\<not> isRow)) [nat (sint i)..<nat (sint extraColumns)])"
proof (induction H rowHeight isRow extraColumns start i aSize rule: extra_columns_loop.induct)
  case (1 H rowHeight isRow extraColumns start i aSize)
  let ?f = "\<lambda>k. rowHeight (start + word_of_nat k) (\<not> isRow)"
  show ?case
  proof (cases "sint i < sint extraColumns")
    case True
    then have s: "sint (i + 1) = sint i + 1" by (rule sint_Suc_below)
    with "1.prems" have pos: "0 \<le> sint (i + 1)" by simp
    from s "1.prems" have n: "nat (sint (i + 1)) = Suc (nat (sint i))" by simp
    from True "1.prems" have lt: "nat (sint i) < nat (sint extraColumns)" by simp
    have cons: "[nat (sint i)..<nat (sint extraColumns)] =
        nat (sint i) # [nat (sint (i + 1))..<nat (sint extraColumns)]"
      unfolding n using lt by (rule upt_conv_Cons)
    have here: "?f (nat (sint i)) = rowHeight (i + start) (\<not> isRow)"
      by (simp only: word_of_nat_sint [OF "1.prems"] add.commute [of start i])
    have "extra_columns_loop H rowHeight isRow extraColumns start i aSize =
        extra_columns_loop H rowHeight isRow extraColumns start (i + 1)
          (AddWidth H aSize (rowHeight (i + start) (\<not> isRow)) isRow)"
      using True by (subst extra_columns_loop.simps) (simp only: if_True)
    also have "\<dots> = fold_sizes H isRow (AddWidth H aSize (rowHeight (i + start) (\<not> isRow)) isRow)
        (map ?f [nat (sint (i + 1))..<nat (sint extraColumns)])"
      by (rule "1.IH" [OF True pos])
    also have "\<dots> = fold_sizes H isRow aSize (map ?f [nat (sint i)..<nat (sint extraColumns)])"
      unfolding cons fold_sizes_def by (simp only: list.map foldl_Cons here)
    finally show ?thesis .
  next
    case False
    with "1.prems" have "nat (sint extraColumns) \<le> nat (sint i)" by simp
    then have "[nat (sint i)..<nat (sint extraColumns)] = []" by simp
    with False show ?thesis
      by (subst extra_columns_loop.simps) (simp add: fold_sizes_def)
  qed
qed

lemma extra_columns_loop_0:
  "extra_columns_loop H rowHeight isRow (GetExtraColumnCount grid isRow)
      (GetColumnCount grid isRow - GetExtraColumnCount grid isRow) 0 aSize =
   fold_sizes H isRow aSize (map (\<lambda>i. rowHeight i (\<not> isRow)) (extra_columns grid isRow))"
  by (simp add: extra_columns_loop_fold extra_columns_def comp_def)

lemma GET_WIDTH_AddWidth:
  "GET_WIDTH (AddWidth H acc s isRow) isRow =
     (if GET_WIDTH acc isRow = NS_INTRINSICSIZE H \<or> s = NS_INTRINSICSIZE H
      then NS_INTRINSICSIZE H else GET_WIDTH acc isRow + s)"
  by (simp add: AddWidth_def GET_WIDTH_def assign_WIDTH_def)

lemma GET_WIDTH_AddWidth_other:
  "GET_WIDTH (AddWidth H acc s isRow) (\<not> isRow) = GET_WIDTH acc (\<not> isRow)"
  by (simp add: AddWidth_def GET_WIDTH_def assign_WIDTH_def)

lemma fold_sizes_sentinel_stays:
  "GET_WIDTH acc isRow = NS_INTRINSICSIZE H \<Longrightarrow>
   GET_WIDTH (fold_sizes H isRow acc sizes) isRow = NS_INTRINSICSIZE H"
  unfolding fold_sizes_def
  by (induction sizes arbitrary: acc) (simp_all add: GET_WIDTH_AddWidth)

lemma fold_sizes_dominance:
  "NS_INTRINSICSIZE H \<in> set sizes \<Longrightarrow>
   GET_WIDTH (fold_sizes H isRow acc sizes) isRow = NS_INTRINSICSIZE H"
proof (induction sizes arbitrary: acc)
  case Nil
  then show ?case by simp
next
  case (Cons s sizes)
  show ?case
  proof (cases "s = NS_INTRINSICSIZE H")
    case True
    then have "GET_WIDTH (AddWidth H acc s isRow) isRow = NS_INTRINSICSIZE H"
      by (simp add: GET_WIDTH_AddWidth)
    from fold_sizes_sentinel_stays [OF this] show ?thesis
      by (simp add: fold_sizes_def)
  next
    case False
    with Cons.prems have "NS_INTRINSICSIZE H \<in> set sizes" by auto
    from Cons.IH [OF this] show ?thesis by (simp add: fold_sizes_def)
  qed
qed

lemma fold_sizes_other:
  "GET_WIDTH (fold_sizes H isRow acc sizes) (\<not> isRow) = GET_WIDTH acc (\<not> isRow)"
  unfolding fold_sizes_def
  by (induction sizes arbitrary: acc) (simp_all add: GET_WIDTH_AddWidth_other)

lemma GetPrefSize_fold:
  "GetGrid H aBox = Some (grid, index) \<Longrightarrow>
   GetPrefSize H aBox aSize =
     (fst (nsGridRowLayout_GetPrefSize H aBox aSize),
      fold_sizes H (IsHorizontal H aBox) (snd (nsGridRowLayout_GetPrefSize H aBox aSize))
        (map (\<lambda>i. GetPrefRowHeight grid i (\<not> IsHorizontal H aBox))
           (extra_columns grid (IsHorizontal H aBox))))"
  by (simp add: GetPrefSize_def Let_def extra_columns_loop_0 split: prod.splits)

lemma GetMaxSize_fold:
  "GetGrid H aBox = Some (grid, index) \<Longrightarrow>
   GetMaxSize H aBox aSize =
     (fst (nsGridRowLayout_GetMaxSize H aBox aSize),
      fold_sizes H (IsHorizontal H aBox) (snd (nsGridRowLayout_GetMaxSize H aBox aSize))
        (map (\<lambda>i. GetMaxRowHeight grid i (\<not> IsHorizontal H aBox))
           (extra_columns grid (IsHorizontal H aBox))))"
  by (simp add: GetMaxSize_def Let_def extra_columns_loop_0 split: prod.splits)

lemma GetMinSize_fold:
  "GetGrid H aBox = Some (grid, index) \<Longrightarrow>
   GetMinSize H aBox aSize =
     (fst (nsGridRowLayout_GetMinSize H aBox aSize),
      fold_sizes H (IsHorizontal H aBox) (snd (nsGridRowLayout_GetMinSize H aBox aSize))
        (map (\<lambda>i. GetMinRowHeight grid i (\<not> IsHorizontal H aBox))
           (extra_columns grid (IsHorizontal H aBox))))"
  by (simp add: GetMinSize_def Let_def extra_columns_loop_0 split: prod.splits)

lemma extra_columns_two:
  "GetExtraColumnCount grid isRow = 2 \<Longrightarrow>
   extra_columns grid isRow = [GetColumnCount grid isRow - 2, GetColumnCount grid isRow - 1]"
  by (simp add: extra_columns_def upt_rec numeral_2_eq_2)

subsection \<open>The traversals as a whole\<close>

lemma DirtyRows_eq:
  "DirtyRows E (Some aBox) aState =
     (if traversable (childBoxes aBox)
      then Inr (NS_OK, insert (box_id aBox) aState \<union> (\<Union>child\<in>set (childBoxes aBox). forwarded_marks E child))
      else Inl NullDeref)"
  by (simp add: DirtyRows_loop_eq MarkDirty_def)

lemma example_traversable: "traversable (childBoxes example_group)"
  by (simp add: example_group_def CheckForScrollFrame_def)

lemma CountRowsColumns_loop_bogus:
  "\<forall>child\<in>set cs. is_bogus child \<Longrightarrow>
   CountRowsColumns_loop E cs r c = Inr (r + word_of_nat (length cs), c)"
proof (induction cs arbitrary: r)
  case Nil
  then show ?case by simp
next
  case (Cons child rest)
  from Cons.prems have "is_bogus child" by simp
  then obtain d where d: "snd (CheckForScrollFrame child) = Some d"
    and l: "layoutManager d = None \<or> layoutManager d = Some PlainLayout"
    by (auto simp: is_bogus_def split: option.splits)
  from Cons.prems have "\<forall>child\<in>set rest. is_bogus child" by simp
  from Cons.IH [OF this, of "r + 1"] d l show ?case
    by (auto simp: add.assoc)
qed

lemma CountRowsColumns_loop_columns:
  "\<forall>p b r c. snd (part_CountRowsColumns E p b (r, c)) = c \<Longrightarrow>
   CountRowsColumns_loop E cs r c = Inr (r', c') \<Longrightarrow> c' = c"
proof (induction cs arbitrary: r c r' c' rule: traversable.induct)
  case 1
  then show ?case by simp
next
  case (2 child rest)
  note keep = "2.prems"(1) and run = "2.prems"(2)
  from run obtain d where d: "snd (CheckForScrollFrame child) = Some d"
    by (auto split: option.splits)
  show ?case
  proof (cases "layoutManager d")
    case None
    with d run have "CountRowsColumns_loop E rest (r + 1) c = Inr (r', c')" by simp
    from "2.IH"(2) [OF keep this] show ?thesis .
  next
    case (Some l)
    show ?thesis
    proof (cases l)
      case PlainLayout
      with Some d run have "CountRowsColumns_loop E rest (r + 1) c = Inr (r', c')" by simp
      from "2.IH"(2) [OF keep this] show ?thesis .
    next
      case RowGroupLayout
      with Some d run obtain r1 c1 where
        inner: "CountRowsColumns_loop E (childBoxes d) r c = Inr (r1, c1)" and
        after: "CountRowsColumns_loop E rest r1 c1 = Inr (r', c')"
        by (auto split: sum.splits)
      from "2.IH"(1) [OF d Some RowGroupLayout keep inner] "2.IH"(2) [OF keep after]
      show ?thesis by simp
    next
      case (GridPartLayout p)
      with Some d run obtain r1 c1 where
        inner: "part_CountRowsColumns E p d (r, c) = (r1, c1)" and
        after: "CountRowsColumns_loop E rest r1 c1 = Inr (r', c')"
        by (auto split: prod.splits)
      from inner keep have "c1 = c" by (metis snd_conv)
      with "2.IH"(2) [OF keep after] show ?thesis by simp
    qed
  qed
qed

lemma row_parts_consistent: "parts_consistent row_parts"
  by (simp add: parts_consistent_def row_parts_def)

lemma CountRowsColumns_returns_traversable:
  "CountRowsColumns E (Some aBox) r c = Inr res \<Longrightarrow> traversable (childBoxes aBox)"
  using CountRowsColumns_loop_fault [of "childBoxes aBox" E r c]
  by (cases "traversable (childBoxes aBox)") auto

lemma BuildRows_exact:
  assumes "traversable (childBoxes aBox)"
    and "length (logical_rows E aBox) \<le> length aRows"
    and "length (logical_rows E aBox) < 2 ^ 31"
  shows "BuildRows E (Some aBox) aRows =
    Inr (NS_OK, logical_rows E aBox @ drop (length (logical_rows E aBox)) aRows,
         word_of_nat (length (logical_rows E aBox)))"
proof -
  have "BuildRows_loop E (childBoxes aBox) aRows (word_of_nat 0) =
      Inr (take 0 aRows @ concat (map (child_rows E) (childBoxes aBox))
             @ drop (0 + length (concat (map (child_rows E) (childBoxes aBox)))) aRows,
           word_of_nat (0 + length (concat (map (child_rows E) (childBoxes aBox)))))"
    using assms by (intro BuildRows_loop_exact) (simp_all add: logical_rows_def)
  then show ?thesis by (simp add: logical_rows_def)
qed

lemma BuildRows_returns:
  assumes "BuildRows E (Some aBox) aRows = Inr res"
    and "length (logical_rows E aBox) < 2 ^ 31"
  shows "traversable (childBoxes aBox) \<and> length (logical_rows E aBox) \<le> length aRows"
proof -
  from assms(1) obtain res' where
    "BuildRows_loop E (childBoxes aBox) aRows (word_of_nat 0) = Inr res'"
    by (auto split: sum.splits)
  from BuildRows_loop_returns [OF this] assms(2) show ?thesis
    by (simp add: logical_rows_def)
qed

lemma BuildRows_loop_fault:
  "\<not> traversable cs \<Longrightarrow> \<exists>f. BuildRows_loop E cs aRows rowCount = Inl f"
proof (induction cs arbitrary: aRows rowCount rule: traversable.induct)
  case 1
  then show ?case by simp
next
  case (2 child rest)
  show ?case
  proof (cases "snd (CheckForScrollFrame child)")
    case None
    then show ?thesis by simp
  next
    case (Some d)
    show ?thesis
    proof (cases "layoutManager d = Some RowGroupLayout")
      case True
      show ?thesis
      proof (cases "traversable (childBoxes d)")
        case t: True
        with Some True "2.prems" have "\<not> traversable rest" by simp
        from "2.IH"(2) [OF this] have "\<And>rows n. \<exists>f. BuildRows_loop E rest rows n = Inl f" by blast
        then show ?thesis using Some True
          by (auto split: sum.splits prod.splits)
      next
        case f: False
        from "2.IH"(1) [OF Some True refl f]
        have "\<And>rows n. \<exists>f. BuildRows_loop E (childBoxes d) rows n = Inl f" by blast
        then have inner: "\<And>rows. \<exists>f. BuildRows_loop E (childBoxes d) rows 0 = Inl f" by blast
        show ?thesis
        proof (cases "slots_from aRows rowCount")
          case (Inl e)
          with Some True show ?thesis by simp
        next
          case (Inr fs)
          obtain front slots where fs: "fs = (front, slots)" by (cases fs)
          from inner obtain e where "BuildRows_loop E (childBoxes d) slots 0 = Inl e" by blast
          with Some True Inr fs show ?thesis by simp
        qed
      qed
    next
      case False
      with Some "2.prems" have "\<not> traversable rest"
        by (auto split: option.splits layout.splits)
      from "2.IH"(2) [OF this] have r: "\<And>rows n. \<exists>f. BuildRows_loop E rest rows n = Inl f" by blast
      show ?thesis
      proof (cases "layoutManager d")
        case None
        with Some r show ?thesis by (auto split: sum.splits)
      next
        case l: (Some l)
        with False Some r show ?thesis
          by (cases l) (auto split: sum.splits prod.splits)
      qed
    qed
  qed
qed

lemma BuildRows_loop_null:
  "\<not> traversable cs \<Longrightarrow> n + length (concat (map (child_rows E) cs)) \<le> length aRows \<Longrightarrow>
   n + length (concat (map (child_rows E) cs)) < 2 ^ 31 \<Longrightarrow>
   BuildRows_loop E cs aRows (word_of_nat n) = Inl NullDeref"
proof (induction cs arbitrary: n aRows rule: traversable.induct)
  case 1
  then show ?case by simp
next
  case (2 child rest)
  note broken = "2.prems"(1) and fits = "2.prems"(2) and small = "2.prems"(3)
  let ?here = "child_rows E child"
  let ?rest = "concat (map (child_rows E) rest)"
  from small have nsmall: "n < 2 ^ 31" by simp
  from fits have nle: "n \<le> length aRows" by simp
  show ?case
  proof (cases "snd (CheckForScrollFrame child)")
    case None
    then show ?thesis by simp
  next
    case (Some d)
    show ?thesis
    proof (cases "layoutManager d = Some RowGroupLayout")
      case True
      then have here: "?here = concat (map (child_rows E) (childBoxes d))"
        using Some by (simp add: child_rows.simps [of E child])
      show ?thesis
      proof (cases "traversable (childBoxes d)")
        case t: True
        with Some True broken have brest: "\<not> traversable rest" by simp
        have inner: "BuildRows_loop E (childBoxes d) (drop n aRows) (word_of_nat 0) =
            Inr (take 0 (drop n aRows) @ ?here @ drop (0 + length ?here) (drop n aRows),
                 word_of_nat (0 + length ?here))"
          unfolding here using fits small
          by (intro BuildRows_loop_exact [OF t]) (simp_all add: here)
        let ?buf = "take n aRows @ ?here @ drop (n + length ?here) aRows"
        have len: "length ?buf = length aRows" using fits by simp
        have after: "BuildRows_loop E rest ?buf (word_of_nat (n + length ?here)) = Inl NullDeref"
          using fits small by (intro "2.IH"(2) [OF brest]) (simp_all add: len)
        show ?thesis
          using Some True nle inner after
          by (simp add: slots_from_of_nat [OF nsmall] ac_simps)
      next
        case f: False
        have "BuildRows_loop E (childBoxes d) (drop n aRows) (word_of_nat 0) = Inl NullDeref"
          using fits small
          by (intro "2.IH"(1) [OF Some True refl f]) (simp_all add: here)
        then show ?thesis using Some True nle
          by (simp add: slots_from_of_nat [OF nsmall])
      qed
    next
      case False
      with Some broken have brest: "\<not> traversable rest"
        by (auto split: option.splits layout.splits)
      show ?thesis
      proof (cases "\<exists>p. layoutManager d = Some (GridPartLayout p)")
        case True
        then obtain p where p: "layoutManager d = Some (GridPartLayout p)" by blast
        then have here: "?here = part_BuildRows E p d"
          using Some by (simp add: child_rows.simps [of E child])
        let ?buf = "take n aRows @ ?here @ drop (n + length ?here) aRows"
        have len: "length ?buf = length aRows" using fits by simp
        have after: "BuildRows_loop E rest ?buf (word_of_nat (n + length ?here)) = Inl NullDeref"
          using fits small by (intro "2.IH"(2) [OF brest]) (simp_all add: len)
        have pw: "part_write (part_BuildRows E p d) (drop n aRows) =
            Inr (?here @ drop (n + length ?here) aRows, word_of_nat (length ?here))"
          using fits by (simp add: part_write_def here ac_simps)
        show ?thesis
          using Some p nle pw after
          by (simp add: slots_from_of_nat [OF nsmall] ac_simps here)
      next
        case nopart: False
        with False have bogus: "layoutManager d = None \<or> layoutManager d = Some PlainLayout"
          by (cases "layoutManager d") (auto intro: layout.exhaust)
        then have here: "?here = [Init child True]"
          using Some by (auto simp: child_rows.simps [of E child])
        from fits have nlt: "n < length aRows" by (simp add: here)
        have after: "BuildRows_loop E rest (aRows[n := Init child True]) (word_of_nat (Suc n)) =
            Inl NullDeref"
          using fits small by (intro "2.IH"(2) [OF brest]) (simp_all add: here)
        have w1: "(word_of_nat n :: 32 word) + 1 = word_of_nat (Suc n)" by simp
        show ?thesis
          using Some bogus nlt after
          by (auto simp: write_slot_of_nat [OF nsmall] w1 simp del: of_nat_Suc)
      qed
    qed
  qed
qed

lemma no_scrolled_frame_not_traversable:
  "child \<in> set cs \<Longrightarrow> snd (CheckForScrollFrame child) = None \<Longrightarrow> \<not> traversable cs"
  by (subst traversable_set) (auto intro!: bexI [of _ child])

section \<open>The claims\<close>

text \<open>
  Claim C1. Counting and building agree. When \<^verbatim>\<open>CountRowsColumns\<close> on a box
  with the row counter at zero returns the row count \<open>rowCount\<close>, \<^verbatim>\<open>BuildRows\<close>
  on the same box into a buffer of \<open>rowCount\<close> slots returns, fills the buffer
  with the logical rows of the box in child order, and reports \<open>rowCount\<close> as
  the count written. This holds at every depth of nesting and for every mix of
  monuments and bogus children, given that the other grid parts count the rows
  they build and that the number of rows fits the 32-bit signed counter.
\<close>

theorem count_build_consistency:
  assumes "parts_consistent E"
    and "CountRowsColumns E (Some aBox) 0 c = Inr (rv, rowCount, c')"
    and "length (logical_rows E aBox) < 2 ^ 31"
    and "length aRows = nat (sint rowCount)"
  shows "BuildRows E (Some aBox) aRows = Inr (NS_OK, logical_rows E aBox, rowCount)"
proof -
  from assms(2) have loop: "CountRowsColumns_loop E (childBoxes aBox) 0 c = Inr (rowCount, c')"
    by (auto split: sum.splits)
  from CountRowsColumns_loop_rows [OF assms(1) loop]
  have rc: "rowCount = word_of_nat (length (logical_rows E aBox))"
    by (simp add: logical_rows_def)
  with assms(3) have "sint rowCount = int (length (logical_rows E aBox))"
    by (simp add: sint_word_of_nat)
  with assms(4) have len: "length aRows = length (logical_rows E aBox)" by simp
  from CountRowsColumns_returns_traversable [OF assms(2)]
  have "traversable (childBoxes aBox)" .
  from BuildRows_exact [OF this _ assms(3), of aRows] len rc show ?thesis by simp
qed

theorem count_build_consistency_witness:
  "parts_consistent row_parts \<and>
   CountRowsColumns row_parts (Some example_group) 0 0 = Inr (NS_OK, 4, 2) \<and>
   length (logical_rows row_parts example_group) < 2 ^ 31 \<and>
   length [empty_row, empty_row, empty_row, empty_row] = nat (sint (4 :: PRInt32)) \<and>
   BuildRows row_parts (Some example_group) [empty_row, empty_row, empty_row, empty_row] =
     Inr (NS_OK,
          [\<lparr>mBox = Some 13, mIsBogus = True\<rparr>, \<lparr>mBox = Some 14, mIsBogus = True\<rparr>,
           \<lparr>mBox = Some 15, mIsBogus = False\<rparr>, \<lparr>mBox = Some 18, mIsBogus = True\<rparr>],
          4)"
proof -
  have pc: "parts_consistent row_parts"
    by (simp add: parts_consistent_def row_parts_def)
  have c: "CountRowsColumns row_parts (Some example_group) 0 0 = Inr (NS_OK, 4, 2)"
    by (simp add: example_group_def CheckForScrollFrame_def row_parts_def)
  have rows: "logical_rows row_parts example_group =
      [\<lparr>mBox = Some 13, mIsBogus = True\<rparr>, \<lparr>mBox = Some 14, mIsBogus = True\<rparr>,
       \<lparr>mBox = Some 15, mIsBogus = False\<rparr>, \<lparr>mBox = Some 18, mIsBogus = True\<rparr>]"
    by (simp add: logical_rows_def example_group_def child_rows.simps CheckForScrollFrame_def
        row_parts_def Init_def)
  then have small: "length (logical_rows row_parts example_group) < 2 ^ 31" by simp
  have len: "length [empty_row, empty_row, empty_row, empty_row] = nat (sint (4 :: PRInt32))"
    by simp
  from count_build_consistency [OF pc c small len] pc c small len rows
  show ?thesis by simp
qed

text \<open>
  Claim C2, as amended. For a box with a grid, each of \<^verbatim>\<open>GetPrefSize\<close>,
  \<^verbatim>\<open>GetMaxSize\<close> and \<^verbatim>\<open>GetMinSize\<close> returns the status of the base class, and the
  size of the base class into which the sizes of that kind of the extra columns,
  asked for along the opposite axis at the indices from
  \<open>GetColumnCount - GetExtraColumnCount\<close> up to \<open>GetColumnCount\<close>, are folded
  by \<^verbatim>\<open>AddWidth\<close> on the axis of the box. With two extra columns of the preferred
  sizes 10 and 15, \<^verbatim>\<open>GetPrefSize\<close> adds 25 to the component of the base class on
  that axis when neither that component nor that component plus 10 is the
  sentinel (10 and 15 being no sentinel themselves); sums are taken in 32 bits.
\<close>

theorem size_queries_fold_extra_columns:
  assumes "GetGrid H aBox = Some (grid, index)"
  shows
    "GetPrefSize H aBox aSize =
       (fst (nsGridRowLayout_GetPrefSize H aBox aSize),
        fold_sizes H (IsHorizontal H aBox) (snd (nsGridRowLayout_GetPrefSize H aBox aSize))
          (map (\<lambda>i. GetPrefRowHeight grid i (\<not> IsHorizontal H aBox))
             (extra_columns grid (IsHorizontal H aBox)))) \<and>
     GetMaxSize H aBox aSize =
       (fst (nsGridRowLayout_GetMaxSize H aBox aSize),
        fold_sizes H (IsHorizontal H aBox) (snd (nsGridRowLayout_GetMaxSize H aBox aSize))
          (map (\<lambda>i. GetMaxRowHeight grid i (\<not> IsHorizontal H aBox))
             (extra_columns grid (IsHorizontal H aBox)))) \<and>
     GetMinSize H aBox aSize =
       (fst (nsGridRowLayout_GetMinSize H aBox aSize),
        fold_sizes H (IsHorizontal H aBox) (snd (nsGridRowLayout_GetMinSize H aBox aSize))
          (map (\<lambda>i. GetMinRowHeight grid i (\<not> IsHorizontal H aBox))
             (extra_columns grid (IsHorizontal H aBox)))) \<and>
     (GetExtraColumnCount grid (IsHorizontal H aBox) = 2 \<and>
      GetPrefRowHeight grid (GetColumnCount grid (IsHorizontal H aBox) - 2) (\<not> IsHorizontal H aBox) = 10 \<and>
      GetPrefRowHeight grid (GetColumnCount grid (IsHorizontal H aBox) - 1) (\<not> IsHorizontal H aBox) = 15 \<and>
      NS_INTRINSICSIZE H \<noteq> 10 \<and> NS_INTRINSICSIZE H \<noteq> 15 \<and>
      GET_WIDTH (snd (nsGridRowLayout_GetPrefSize H aBox aSize)) (IsHorizontal H aBox) \<noteq> NS_INTRINSICSIZE H \<and>
      GET_WIDTH (snd (nsGridRowLayout_GetPrefSize H aBox aSize)) (IsHorizontal H aBox) + 10 \<noteq> NS_INTRINSICSIZE H
      \<longrightarrow>
      GET_WIDTH (snd (GetPrefSize H aBox aSize)) (IsHorizontal H aBox) =
        GET_WIDTH (snd (nsGridRowLayout_GetPrefSize H aBox aSize)) (IsHorizontal H aBox) + 25 \<and>
      GET_WIDTH (snd (GetPrefSize H aBox aSize)) (\<not> IsHorizontal H aBox) =
        GET_WIDTH (snd (nsGridRowLayout_GetPrefSize H aBox aSize)) (\<not> IsHorizontal H aBox))"
proof -
  note folds = GetPrefSize_fold [OF assms] GetMaxSize_fold [OF assms] GetMinSize_fold [OF assms]
  have "GET_WIDTH (snd (GetPrefSize H aBox aSize)) (IsHorizontal H aBox) =
        GET_WIDTH (snd (nsGridRowLayout_GetPrefSize H aBox aSize)) (IsHorizontal H aBox) + 25"
    if "GetExtraColumnCount grid (IsHorizontal H aBox) = 2"
      "GetPrefRowHeight grid (GetColumnCount grid (IsHorizontal H aBox) - 2) (\<not> IsHorizontal H aBox) = 10"
      "GetPrefRowHeight grid (GetColumnCount grid (IsHorizontal H aBox) - 1) (\<not> IsHorizontal H aBox) = 15"
      "NS_INTRINSICSIZE H \<noteq> 10" "NS_INTRINSICSIZE H \<noteq> 15"
      "GET_WIDTH (snd (nsGridRowLayout_GetPrefSize H aBox aSize)) (IsHorizontal H aBox) \<noteq> NS_INTRINSICSIZE H"
      "GET_WIDTH (snd (nsGridRowLayout_GetPrefSize H aBox aSize)) (IsHorizontal H aBox) + 10 \<noteq> NS_INTRINSICSIZE H"
    using that
    by (simp add: folds(1) extra_columns_two fold_sizes_def GET_WIDTH_AddWidth)
  moreover have "GET_WIDTH (snd (GetPrefSize H aBox aSize)) (\<not> IsHorizontal H aBox) =
        GET_WIDTH (snd (nsGridRowLayout_GetPrefSize H aBox aSize)) (\<not> IsHorizontal H aBox)"
    by (simp add: folds(1) fold_sizes_other)
  ultimately show ?thesis using folds by blast
qed

theorem size_queries_fold_extra_columns_witness:
  "GetGrid (example_host 100 15) example_group = Some (example_grid 15, 4) \<and>
   extra_columns (example_grid 15) True = [3, 4] \<and>
   GetPrefSize (example_host 100 15) example_group \<lparr>width = 0, height = 0\<rparr> =
     (NS_OK, \<lparr>width = 125, height = 40\<rparr>) \<and>
   GetMaxSize (example_host 100 15) example_group \<lparr>width = 0, height = 0\<rparr> =
     (NS_OK, \<lparr>width = 125, height = 40\<rparr>) \<and>
   GetMinSize (example_host 100 15) example_group \<lparr>width = 0, height = 0\<rparr> =
     (NS_OK, \<lparr>width = 125, height = 40\<rparr>) \<and>
   GetExtraColumnCount (example_grid 15) True = 2 \<and>
   GetPrefRowHeight (example_grid 15) 3 False = 10 \<and>
   GetPrefRowHeight (example_grid 15) 4 False = 15 \<and>
   NS_INTRINSICSIZE (example_host 100 15) = 1073741824 \<and>
   GET_WIDTH (snd (nsGridRowLayout_GetPrefSize (example_host 100 15) example_group
      \<lparr>width = 0, height = 0\<rparr>)) True = 100 \<and>
   GET_WIDTH (snd (GetPrefSize (example_host 100 15) example_group \<lparr>width = 0, height = 0\<rparr>)) True = 125 \<and>
   GET_WIDTH (snd (GetPrefSize (example_host 100 15) example_group \<lparr>width = 0, height = 0\<rparr>)) False = 40"
proof -
  let ?H = "example_host 100 15"
  let ?g = "example_grid 15"
  let ?z = "\<lparr>width = 0, height = 0\<rparr>"
  have g: "GetGrid ?H example_group = Some (?g, 4)"
    by (simp add: example_host_def example_group_def)
  have h: "IsHorizontal ?H example_group = True" by (simp add: example_host_def)
  have e: "extra_columns ?g True = [3, 4]"
    using extra_columns_two [of ?g True] by (simp add: example_grid_def)
  have facts: "GetExtraColumnCount ?g True = 2" "GetColumnCount ?g True = 5"
    "GetPrefRowHeight ?g 3 False = 10" "GetPrefRowHeight ?g 4 False = 15"
    "GetMaxRowHeight ?g 3 False = 10" "GetMaxRowHeight ?g 4 False = 15"
    "GetMinRowHeight ?g 3 False = 10" "GetMinRowHeight ?g 4 False = 15"
    by (simp_all add: example_grid_def)
  have s: "NS_INTRINSICSIZE ?H = 1073741824" by (simp add: example_host_def)
  have b: "nsGridRowLayout_GetPrefSize ?H example_group ?z = (NS_OK, \<lparr>width = 100, height = 40\<rparr>)"
    "nsGridRowLayout_GetMaxSize ?H example_group ?z = (NS_OK, \<lparr>width = 100, height = 40\<rparr>)"
    "nsGridRowLayout_GetMinSize ?H example_group ?z = (NS_OK, \<lparr>width = 100, height = 40\<rparr>)"
    by (simp_all add: example_host_def)
  note t = size_queries_fold_extra_columns [OF g, of ?z]
  have f: "fold_sizes ?H True \<lparr>width = 100, height = 40\<rparr> [10, 15] = \<lparr>width = 125, height = 40\<rparr>"
    by (simp add: fold_sizes_def AddWidth_def GET_WIDTH_def assign_WIDTH_def s)
  from t have q: "GetPrefSize ?H example_group ?z = (NS_OK, \<lparr>width = 125, height = 40\<rparr>)"
    "GetMaxSize ?H example_group ?z = (NS_OK, \<lparr>width = 125, height = 40\<rparr>)"
    "GetMinSize ?H example_group ?z = (NS_OK, \<lparr>width = 125, height = 40\<rparr>)"
    by (simp_all add: h e facts b f)
  from q have w: "GET_WIDTH (snd (GetPrefSize ?H example_group ?z)) True = 125"
    "GET_WIDTH (snd (GetPrefSize ?H example_group ?z)) False = 40"
    by (simp_all add: GET_WIDTH_def)
  from g e q facts s b w show ?thesis by (simp add: GET_WIDTH_def)
qed

text \<open>
  The second sentence of claim C2 as it was stated: the base class reports a
  width that is ten below the sentinel, which is a finite width. The first step
  of the fold reaches the sentinel, the second keeps it, and the result is the
  sentinel and not the base width plus 25.
\<close>

theorem extra_columns_add_25_counterexample:
  "GetGrid (example_host 1073741814 15) example_group = Some (example_grid 15, 4) \<and>
   GetExtraColumnCount (example_grid 15) True = 2 \<and>
   GetColumnCount (example_grid 15) True = 5 \<and>
   GetPrefRowHeight (example_grid 15) 3 False = 10 \<and>
   GetPrefRowHeight (example_grid 15) 4 False = 15 \<and>
   IsHorizontal (example_host 1073741814 15) example_group = True \<and>
   NS_INTRINSICSIZE (example_host 1073741814 15) = 1073741824 \<and>
   nsGridRowLayout_GetPrefSize (example_host 1073741814 15) example_group \<lparr>width = 0, height = 0\<rparr> =
     (NS_OK, \<lparr>width = 1073741814, height = 40\<rparr>) \<and>
   GetPrefSize (example_host 1073741814 15) example_group \<lparr>width = 0, height = 0\<rparr> =
     (NS_OK, \<lparr>width = 1073741824, height = 40\<rparr>) \<and>
   (1073741824 :: nscoord) \<noteq> 1073741814 + 25"
proof -
  let ?H = "example_host 1073741814 15"
  let ?g = "example_grid 15"
  let ?z = "\<lparr>width = 0, height = 0\<rparr>"
  have g: "GetGrid ?H example_group = Some (?g, 4)"
    by (simp add: example_host_def example_group_def)
  have h: "IsHorizontal ?H example_group = True" by (simp add: example_host_def)
  have e: "extra_columns ?g True = [3, 4]"
    using extra_columns_two [of ?g True] by (simp add: example_grid_def)
  have facts: "GetExtraColumnCount ?g True = 2" "GetColumnCount ?g True = 5"
    "GetPrefRowHeight ?g 3 False = 10" "GetPrefRowHeight ?g 4 False = 15"
    by (simp_all add: example_grid_def)
  have s: "NS_INTRINSICSIZE ?H = 1073741824" by (simp add: example_host_def)
  have b: "nsGridRowLayout_GetPrefSize ?H example_group ?z = (NS_OK, \<lparr>width = 1073741814, height = 40\<rparr>)"
    by (simp add: example_host_def)
  have f: "fold_sizes ?H True \<lparr>width = 1073741814, height = 40\<rparr> [10, 15] =
      \<lparr>width = 1073741824, height = 40\<rparr>"
    by (simp add: fold_sizes_def AddWidth_def GET_WIDTH_def assign_WIDTH_def s)
  have q: "GetPrefSize ?H example_group ?z = (NS_OK, \<lparr>width = 1073741824, height = 40\<rparr>)"
    by (simp add: GetPrefSize_fold [OF g] h e facts b f)
  from g facts h s b q show ?thesis by simp
qed

text \<open>
  Claim C3. One step of \<^verbatim>\<open>AddWidth\<close> makes the chosen component the sentinel when
  the component or the added size is the sentinel, and their sum otherwise; the
  other component is not touched. Hence, when the size of any one extra column is
  the sentinel, the component of the result of \<^verbatim>\<open>GetPrefSize\<close>, \<^verbatim>\<open>GetMaxSize\<close>
  or \<^verbatim>\<open>GetMinSize\<close> on the axis of the box is the sentinel, whatever the other
  sizes are.
\<close>

theorem AddWidth_sentinel_dominates:
  "GET_WIDTH (AddWidth H acc s isRow) isRow =
     (if GET_WIDTH acc isRow = NS_INTRINSICSIZE H \<or> s = NS_INTRINSICSIZE H
      then NS_INTRINSICSIZE H else GET_WIDTH acc isRow + s) \<and>
   GET_WIDTH (AddWidth H acc s isRow) (\<not> isRow) = GET_WIDTH acc (\<not> isRow) \<and>
   (GetGrid H aBox = Some (grid, index) \<and> i \<in> set (extra_columns grid (IsHorizontal H aBox)) \<longrightarrow>
      (GetPrefRowHeight grid i (\<not> IsHorizontal H aBox) = NS_INTRINSICSIZE H \<longrightarrow>
         GET_WIDTH (snd (GetPrefSize H aBox aSize)) (IsHorizontal H aBox) = NS_INTRINSICSIZE H) \<and>
      (GetMaxRowHeight grid i (\<not> IsHorizontal H aBox) = NS_INTRINSICSIZE H \<longrightarrow>
         GET_WIDTH (snd (GetMaxSize H aBox aSize)) (IsHorizontal H aBox) = NS_INTRINSICSIZE H) \<and>
      (GetMinRowHeight grid i (\<not> IsHorizontal H aBox) = NS_INTRINSICSIZE H \<longrightarrow>
         GET_WIDTH (snd (GetMinSize H aBox aSize)) (IsHorizontal H aBox) = NS_INTRINSICSIZE H))"
proof -
  have dom: "GET_WIDTH (fold_sizes H isRow a (map f is)) isRow = NS_INTRINSICSIZE H"
    if "i \<in> set is" "f i = NS_INTRINSICSIZE H" for f :: "PRInt32 \<Rightarrow> nscoord" and "is" a isRow
  proof -
    from that have "NS_INTRINSICSIZE H \<in> set (map f is)" by force
    then show ?thesis by (rule fold_sizes_dominance)
  qed
  show ?thesis
    by (auto simp: GET_WIDTH_AddWidth GET_WIDTH_AddWidth_other
          GetPrefSize_fold GetMaxSize_fold GetMinSize_fold intro!: dom)
qed

theorem AddWidth_sentinel_dominates_witness:
  "GET_WIDTH (AddWidth (example_host 100 1073741824) \<lparr>width = 100, height = 40\<rparr> 10 True) True = 110 \<and>
   GET_WIDTH (AddWidth (example_host 100 1073741824) \<lparr>width = 100, height = 40\<rparr> 10 True) False = 40 \<and>
   GetGrid (example_host 100 1073741824) example_group = Some (example_grid 1073741824, 4) \<and>
   4 \<in> set (extra_columns (example_grid 1073741824) (IsHorizontal (example_host 100 1073741824) example_group)) \<and>
   GetPrefRowHeight (example_grid 1073741824) 4 False = NS_INTRINSICSIZE (example_host 100 1073741824) \<and>
   GetMaxRowHeight (example_grid 1073741824) 4 False = NS_INTRINSICSIZE (example_host 100 1073741824) \<and>
   GetMinRowHeight (example_grid 1073741824) 4 False = NS_INTRINSICSIZE (example_host 100 1073741824) \<and>
   width (snd (GetPrefSize (example_host 100 1073741824) example_group \<lparr>width = 0, height = 0\<rparr>)) = 1073741824 \<and>
   width (snd (GetMaxSize (example_host 100 1073741824) example_group \<lparr>width = 0, height = 0\<rparr>)) = 1073741824 \<and>
   width (snd (GetMinSize (example_host 100 1073741824) example_group \<lparr>width = 0, height = 0\<rparr>)) = 1073741824"
proof -
  let ?H = "example_host 100 1073741824"
  let ?g = "example_grid 1073741824"
  have g: "GetGrid ?H example_group = Some (?g, 4)"
    by (simp add: example_host_def example_group_def)
  have h: "IsHorizontal ?H example_group = True" by (simp add: example_host_def)
  have e: "extra_columns ?g True = [3, 4]"
    using extra_columns_two [of ?g True] by (simp add: example_grid_def)
  have i: "4 \<in> set (extra_columns ?g (IsHorizontal ?H example_group))" by (simp add: h e)
  have s: "NS_INTRINSICSIZE ?H = 1073741824" by (simp add: example_host_def)
  have p: "GetPrefRowHeight ?g 4 False = NS_INTRINSICSIZE ?H"
    "GetMaxRowHeight ?g 4 False = NS_INTRINSICSIZE ?H"
    "GetMinRowHeight ?g 4 False = NS_INTRINSICSIZE ?H"
    by (simp_all add: s example_grid_def)
  note t = AddWidth_sentinel_dominates [of ?H "\<lparr>width = 100, height = 40\<rparr>" 10 True
      example_group ?g 4 4 "\<lparr>width = 0, height = 0\<rparr>"]
  from t have a: "GET_WIDTH (AddWidth ?H \<lparr>width = 100, height = 40\<rparr> 10 True) True = 110"
    "GET_WIDTH (AddWidth ?H \<lparr>width = 100, height = 40\<rparr> 10 True) False = 40"
    by (simp_all add: GET_WIDTH_def s)
  from t g i p h have
    "GET_WIDTH (snd (GetPrefSize ?H example_group \<lparr>width = 0, height = 0\<rparr>)) True = NS_INTRINSICSIZE ?H"
    "GET_WIDTH (snd (GetMaxSize ?H example_group \<lparr>width = 0, height = 0\<rparr>)) True = NS_INTRINSICSIZE ?H"
    "GET_WIDTH (snd (GetMinSize ?H example_group \<lparr>width = 0, height = 0\<rparr>)) True = NS_INTRINSICSIZE ?H"
    by simp_all
  then have w: "width (snd (GetPrefSize ?H example_group \<lparr>width = 0, height = 0\<rparr>)) = 1073741824"
    "width (snd (GetMaxSize ?H example_group \<lparr>width = 0, height = 0\<rparr>)) = 1073741824"
    "width (snd (GetMinSize ?H example_group \<lparr>width = 0, height = 0\<rparr>)) = 1073741824"
    by (simp_all add: GET_WIDTH_def s)
  from a g i p w show ?thesis by simp
qed

text \<open>
  Claim C4. For a box with no grid, each of \<^verbatim>\<open>GetPrefSize\<close>, \<^verbatim>\<open>GetMaxSize\<close> and
  \<^verbatim>\<open>GetMinSize\<close> returns what the same query of the base class returns, status
  and size: nothing is added for extra columns and no error is raised here.
\<close>

theorem no_grid_passthrough:
  assumes "GetGrid H aBox = None"
  shows "GetPrefSize H aBox aSize = nsGridRowLayout_GetPrefSize H aBox aSize \<and>
         GetMaxSize H aBox aSize = nsGridRowLayout_GetMaxSize H aBox aSize \<and>
         GetMinSize H aBox aSize = nsGridRowLayout_GetMinSize H aBox aSize"
  using assms by (simp add: GetPrefSize_def GetMaxSize_def GetMinSize_def split: prod.splits)

theorem no_grid_passthrough_witness:
  "GetGrid (example_host 100 15) (Box 3 None None []) = None \<and>
   GetPrefSize (example_host 100 15) (Box 3 None None []) \<lparr>width = 0, height = 0\<rparr> =
     (NS_OK, \<lparr>width = 100, height = 40\<rparr>) \<and>
   GetMaxSize (example_host 100 15) (Box 3 None None []) \<lparr>width = 0, height = 0\<rparr> =
     (NS_OK, \<lparr>width = 100, height = 40\<rparr>) \<and>
   GetMinSize (example_host 100 15) (Box 3 None None []) \<lparr>width = 0, height = 0\<rparr> =
     (NS_OK, \<lparr>width = 100, height = 40\<rparr>)"
proof -
  have n: "GetGrid (example_host 100 15) (Box 3 None None []) = None"
    by (simp add: example_host_def)
  from no_grid_passthrough [OF n, of "\<lparr>width = 0, height = 0\<rparr>"] n
  show ?thesis by (simp add: example_host_def)
qed

text \<open>
  Claim C5. When \<^verbatim>\<open>BuildRows\<close> returns, the buffer starts with the rows of the
  children in child order, one block per child, and is unchanged behind them; the
  count is the number of these rows. The block of a child that is no monument is
  the one descriptor of the child itself (not of the box inside its scroll
  frame), marked bogus. The block of a monument is what the monument builds: the
  rows of the other grid part, or the rows that \<^verbatim>\<open>BuildRows\<close> writes for the
  nested row group. The number of rows is taken to fit the 32-bit signed counter.
\<close>

theorem BuildRows_preserves_order:
  assumes "BuildRows E (Some aBox) aRows = Inr (rv, rows, cnt)"
    and "length (logical_rows E aBox) < 2 ^ 31"
  shows
    "rows = concat (map (child_rows E) (childBoxes aBox)) @ drop (length (logical_rows E aBox)) aRows \<and>
     cnt = word_of_nat (length (logical_rows E aBox)) \<and>
     length (logical_rows E aBox) \<le> length aRows \<and>
     (\<forall>child\<in>set (childBoxes aBox). is_bogus child \<longrightarrow> child_rows E child = [Init child True]) \<and>
     (\<forall>child\<in>set (childBoxes aBox). \<forall>deepChild p.
        snd (CheckForScrollFrame child) = Some deepChild \<and>
        layoutManager deepChild = Some (GridPartLayout p) \<longrightarrow>
          child_rows E child = part_BuildRows E p deepChild) \<and>
     (\<forall>child\<in>set (childBoxes aBox). \<forall>deepChild.
        snd (CheckForScrollFrame child) = Some deepChild \<and>
        layoutManager deepChild = Some RowGroupLayout \<longrightarrow>
          BuildRows E (Some deepChild) (replicate (length (child_rows E child)) r0) =
            Inr (NS_OK, child_rows E child, word_of_nat (length (child_rows E child))))"
proof -
  from BuildRows_returns [OF assms] have trav: "traversable (childBoxes aBox)"
    and fits: "length (logical_rows E aBox) \<le> length aRows" by simp_all
  from BuildRows_exact [OF trav fits assms(2)] assms(1)
  have main: "rows = concat (map (child_rows E) (childBoxes aBox)) @ drop (length (logical_rows E aBox)) aRows"
    "cnt = word_of_nat (length (logical_rows E aBox))"
    by (simp_all add: logical_rows_def)
  have bogus: "child_rows E child = [Init child True]" if "is_bogus child" for child
    using that by (auto simp: is_bogus_def child_rows.simps [of E child] split: option.splits)
  have part: "child_rows E child = part_BuildRows E p d"
    if "snd (CheckForScrollFrame child) = Some d" "layoutManager d = Some (GridPartLayout p)"
    for child d p
    using that by (simp add: child_rows.simps [of E child])
  have group: "BuildRows E (Some d) (replicate (length (child_rows E child)) r0) =
            Inr (NS_OK, child_rows E child, word_of_nat (length (child_rows E child)))"
    if "child \<in> set (childBoxes aBox)" "snd (CheckForScrollFrame child) = Some d"
      "layoutManager d = Some RowGroupLayout" for child d
  proof -
    from that(2,3) have eq: "child_rows E child = logical_rows E d"
      by (simp add: child_rows.simps [of E child] logical_rows_def)
    from that(1) obtain xs ys where "childBoxes aBox = xs @ child # ys"
      by (auto simp: in_set_conv_decomp)
    then have "length (child_rows E child) \<le> length (logical_rows E aBox)"
      by (simp add: logical_rows_def)
    with assms(2) have small: "length (logical_rows E d) < 2 ^ 31" by (simp add: eq)
    from trav that(1) have "traversable [child]"
      by (subst (asm) traversable_set) blast
    with that(2,3) have td: "traversable (childBoxes d)" by simp
    from BuildRows_exact [OF td _ small, of "replicate (length (logical_rows E d)) r0"]
    show ?thesis by (simp add: eq)
  qed
  from main fits bogus part group show ?thesis by blast
qed

theorem BuildRows_preserves_order_witness:
  "BuildRows row_parts (Some example_group) [empty_row, empty_row, empty_row, empty_row, empty_row] =
     Inr (NS_OK,
          [\<lparr>mBox = Some 13, mIsBogus = True\<rparr>, \<lparr>mBox = Some 14, mIsBogus = True\<rparr>,
           \<lparr>mBox = Some 15, mIsBogus = False\<rparr>, \<lparr>mBox = Some 18, mIsBogus = True\<rparr>,
           empty_row],
          4) \<and>
   length (logical_rows row_parts example_group) = 4 \<and>
   is_bogus (Box 18 None None []) \<and>
   child_rows row_parts (Box 18 None None []) = [\<lparr>mBox = Some 18, mIsBogus = True\<rparr>] \<and>
   layoutManager (Box 15 None (Some (GridPartLayout 0)) [Box 16 None None [], Box 17 None None []]) =
     Some (GridPartLayout 0) \<and>
   child_rows row_parts (Box 15 None (Some (GridPartLayout 0)) [Box 16 None None [], Box 17 None None []]) =
     [\<lparr>mBox = Some 15, mIsBogus = False\<rparr>] \<and>
   snd (CheckForScrollFrame (Box 11 (Some (BoxFrame
           (Box 12 None (Some RowGroupLayout)
              [Box 13 None None [], Box 14 None (Some PlainLayout) []]))) None [])) =
     Some (Box 12 None (Some RowGroupLayout) [Box 13 None None [], Box 14 None (Some PlainLayout) []]) \<and>
   BuildRows row_parts
     (Some (Box 12 None (Some RowGroupLayout) [Box 13 None None [], Box 14 None (Some PlainLayout) []]))
     [empty_row, empty_row] =
     Inr (NS_OK, [\<lparr>mBox = Some 13, mIsBogus = True\<rparr>, \<lparr>mBox = Some 14, mIsBogus = True\<rparr>], 2)"
proof -
  let ?nested = "Box 12 None (Some RowGroupLayout) [Box 13 None None [], Box 14 None (Some PlainLayout) []]"
  let ?sf = "Box 11 (Some (BoxFrame ?nested)) None []"
  let ?row = "Box 15 None (Some (GridPartLayout 0)) [Box 16 None None [], Box 17 None None []]"
  let ?plain = "Box 18 None None []"
  let ?buf = "[empty_row, empty_row, empty_row, empty_row, empty_row]"
  have kids: "childBoxes example_group = [?sf, ?row, ?plain]" by (simp add: example_group_def)
  have b: "BuildRows row_parts (Some example_group) ?buf =
     Inr (NS_OK,
          [\<lparr>mBox = Some 13, mIsBogus = True\<rparr>, \<lparr>mBox = Some 14, mIsBogus = True\<rparr>,
           \<lparr>mBox = Some 15, mIsBogus = False\<rparr>, \<lparr>mBox = Some 18, mIsBogus = True\<rparr>,
           empty_row],
          4)"
    by (simp add: example_group_def CheckForScrollFrame_def row_parts_def Init_def
        slots_from_def write_slot_def part_write_def)
  have rows: "logical_rows row_parts example_group =
      [\<lparr>mBox = Some 13, mIsBogus = True\<rparr>, \<lparr>mBox = Some 14, mIsBogus = True\<rparr>,
       \<lparr>mBox = Some 15, mIsBogus = False\<rparr>, \<lparr>mBox = Some 18, mIsBogus = True\<rparr>]"
    by (simp add: logical_rows_def example_group_def child_rows.simps CheckForScrollFrame_def
        row_parts_def Init_def)
  then have small: "length (logical_rows row_parts example_group) < 2 ^ 31" by simp
  note t = BuildRows_preserves_order [OF b small, of empty_row]
  have bg: "is_bogus ?plain" by (simp add: is_bogus_def CheckForScrollFrame_def)
  with t kids have r18: "child_rows row_parts ?plain = [\<lparr>mBox = Some 18, mIsBogus = True\<rparr>]"
    by (simp add: Init_def)
  have u15: "snd (CheckForScrollFrame ?row) = Some ?row" by (simp add: CheckForScrollFrame_def)
  with t kids have r15: "child_rows row_parts ?row = [\<lparr>mBox = Some 15, mIsBogus = False\<rparr>]"
    by (simp add: row_parts_def Init_def)
  have u11: "snd (CheckForScrollFrame ?sf) = Some ?nested" by (simp add: CheckForScrollFrame_def)
  have r11: "child_rows row_parts ?sf =
      [\<lparr>mBox = Some 13, mIsBogus = True\<rparr>, \<lparr>mBox = Some 14, mIsBogus = True\<rparr>]"
    by (simp add: child_rows.simps CheckForScrollFrame_def Init_def)
  from t kids u11 have "BuildRows row_parts (Some ?nested) (replicate (length (child_rows row_parts ?sf)) empty_row) =
      Inr (NS_OK, child_rows row_parts ?sf, word_of_nat (length (child_rows row_parts ?sf)))"
    by simp
  then have n: "BuildRows row_parts (Some ?nested) [empty_row, empty_row] =
      Inr (NS_OK, [\<lparr>mBox = Some 13, mIsBogus = True\<rparr>, \<lparr>mBox = Some 14, mIsBogus = True\<rparr>], 2)"
    by (simp add: r11 numeral_2_eq_2)
  from b rows bg r18 r15 u11 n show ?thesis by simp
qed

text \<open>
  Claim C6, as amended. For a scroll frame with no scrolled frame,
  \<^verbatim>\<open>CheckForScrollFrame\<close> prints its diagnostic and returns null, with no failure
  of its own. The traversals do not tolerate that null. When some child they
  visit, at any depth of nested row groups, has no effective child (a direct child
  that is a scroll frame with no scrolled frame is such a child),
  \<^verbatim>\<open>DirtyRows\<close> and \<^verbatim>\<open>CountRowsColumns\<close> end in the call through the null
  pointer and \<^verbatim>\<open>BuildRows\<close> ends in a fault, which is that call when the rows
  fit the buffer and the 32-bit signed counter: none of them returns. When every
  child visited has an effective child, they go through all the children and
  return \<^verbatim>\<open>NS_OK\<close>: \<^verbatim>\<open>DirtyRows\<close> has marked the box and what the monuments
  among the children mark, \<^verbatim>\<open>CountRowsColumns\<close> has added the number of logical
  rows (the other grid parts counting the rows they build), and \<^verbatim>\<open>BuildRows\<close>
  has written the logical rows in child order and reports their number (the rows
  fitting the buffer and the counter).
\<close>

theorem traversals_need_effective_children:
  "(scrollFrame child = Some NoFrame \<longrightarrow>
      CheckForScrollFrame child = ([''Error no scroll frame!!''], None)) \<and>
   (child \<in> set (childBoxes aBox) \<and> scrollFrame child = Some NoFrame \<longrightarrow>
      \<not> traversable (childBoxes aBox)) \<and>
   (\<not> traversable (childBoxes aBox) \<longrightarrow>
      DirtyRows E (Some aBox) aState = Inl NullDeref \<and>
      CountRowsColumns E (Some aBox) r c = Inl NullDeref \<and>
      (\<exists>f. BuildRows E (Some aBox) aRows = Inl f) \<and>
      (length (logical_rows E aBox) \<le> length aRows \<and> length (logical_rows E aBox) < 2 ^ 31 \<longrightarrow>
         BuildRows E (Some aBox) aRows = Inl NullDeref)) \<and>
   (traversable (childBoxes aBox) \<longrightarrow>
      DirtyRows E (Some aBox) aState =
        Inr (NS_OK, insert (box_id aBox) aState \<union>
                    (\<Union>child\<in>set (childBoxes aBox). forwarded_marks E child)) \<and>
      (\<exists>r' c'. CountRowsColumns E (Some aBox) r c = Inr (NS_OK, r', c') \<and>
         (parts_consistent E \<longrightarrow> r' = r + word_of_nat (length (logical_rows E aBox)))) \<and>
      (length (logical_rows E aBox) \<le> length aRows \<and> length (logical_rows E aBox) < 2 ^ 31 \<longrightarrow>
         BuildRows E (Some aBox) aRows =
           Inr (NS_OK, logical_rows E aBox @ drop (length (logical_rows E aBox)) aRows,
                word_of_nat (length (logical_rows E aBox)))))"
proof -
  have check: "CheckForScrollFrame child = ([''Error no scroll frame!!''], None)"
    if "scrollFrame child = Some NoFrame"
    using that by (simp add: CheckForScrollFrame_def)
  have broken: "\<not> traversable (childBoxes aBox)"
    if "child \<in> set (childBoxes aBox)" "scrollFrame child = Some NoFrame"
    using that(1) by (rule no_scrolled_frame_not_traversable) (simp add: check [OF that(2)])
  have dirty_f: "DirtyRows E (Some aBox) aState = Inl NullDeref"
    if "\<not> traversable (childBoxes aBox)"
    using that by (simp add: DirtyRows_loop_eq)
  have count_f: "CountRowsColumns E (Some aBox) r c = Inl NullDeref"
    if "\<not> traversable (childBoxes aBox)"
    using CountRowsColumns_loop_fault [OF that, of E r c] by simp
  have build_f: "\<exists>f. BuildRows E (Some aBox) aRows = Inl f"
    if "\<not> traversable (childBoxes aBox)"
    using BuildRows_loop_fault [OF that, of E aRows 0] by auto
  have build_n: "BuildRows E (Some aBox) aRows = Inl NullDeref"
    if "\<not> traversable (childBoxes aBox)" "length (logical_rows E aBox) \<le> length aRows"
      "length (logical_rows E aBox) < 2 ^ 31"
  proof -
    have "BuildRows_loop E (childBoxes aBox) aRows (word_of_nat 0) = Inl NullDeref"
      using that by (intro BuildRows_loop_null) (simp_all add: logical_rows_def)
    then show ?thesis by simp
  qed
  have dirty: "DirtyRows E (Some aBox) aState =
      Inr (NS_OK, insert (box_id aBox) aState \<union> (\<Union>child\<in>set (childBoxes aBox). forwarded_marks E child))"
    if "traversable (childBoxes aBox)"
    using that by (simp add: DirtyRows_eq del: DirtyRows.simps)
  have count: "\<exists>r' c'. CountRowsColumns E (Some aBox) r c = Inr (NS_OK, r', c') \<and>
      (parts_consistent E \<longrightarrow> r' = r + word_of_nat (length (logical_rows E aBox)))"
    if "traversable (childBoxes aBox)"
  proof -
    from CountRowsColumns_loop_ok [OF that, of E r c] obtain r' c' where
      loop: "CountRowsColumns_loop E (childBoxes aBox) r c = Inr (r', c')" by blast
    then have "CountRowsColumns E (Some aBox) r c = Inr (NS_OK, r', c')" by simp
    moreover have "r' = r + word_of_nat (length (logical_rows E aBox))" if "parts_consistent E"
      using CountRowsColumns_loop_rows [OF that loop] by (simp add: logical_rows_def)
    ultimately show ?thesis by blast
  qed
  have build: "BuildRows E (Some aBox) aRows =
      Inr (NS_OK, logical_rows E aBox @ drop (length (logical_rows E aBox)) aRows,
           word_of_nat (length (logical_rows E aBox)))"
    if "traversable (childBoxes aBox)" "length (logical_rows E aBox) \<le> length aRows"
      "length (logical_rows E aBox) < 2 ^ 31"
    using that by (rule BuildRows_exact)
  from check broken dirty_f count_f build_f build_n dirty count build show ?thesis by blast
qed

theorem traversals_need_effective_children_witness:
  "scrollFrame (Box 31 (Some NoFrame) None []) = Some NoFrame \<and>
   CheckForScrollFrame (Box 31 (Some NoFrame) None []) = ([''Error no scroll frame!!''], None) \<and>
   Box 31 (Some NoFrame) None [] \<in> set (childBoxes broken_group) \<and>
   \<not> traversable (childBoxes broken_group) \<and>
   length (logical_rows row_parts broken_group) \<le> length [empty_row, empty_row] \<and>
   length (logical_rows row_parts broken_group) < 2 ^ 31 \<and>
   DirtyRows row_parts (Some broken_group) {} = Inl NullDeref \<and>
   CountRowsColumns row_parts (Some broken_group) 0 0 = Inl NullDeref \<and>
   BuildRows row_parts (Some broken_group) [empty_row, empty_row] = Inl NullDeref \<and>
   traversable (childBoxes example_group) \<and>
   parts_consistent row_parts \<and>
   length (logical_rows row_parts example_group) \<le>
     length [empty_row, empty_row, empty_row, empty_row, empty_row] \<and>
   length (logical_rows row_parts example_group) < 2 ^ 31 \<and>
   DirtyRows row_parts (Some example_group) {} = Inr (NS_OK, {10, 12, 15}) \<and>
   (\<exists>c'. CountRowsColumns row_parts (Some example_group) 0 0 = Inr (NS_OK, 4, c')) \<and>
   BuildRows row_parts (Some example_group) [empty_row, empty_row, empty_row, empty_row, empty_row] =
     Inr (NS_OK,
          [\<lparr>mBox = Some 13, mIsBogus = True\<rparr>, \<lparr>mBox = Some 14, mIsBogus = True\<rparr>,
           \<lparr>mBox = Some 15, mIsBogus = False\<rparr>, \<lparr>mBox = Some 18, mIsBogus = True\<rparr>,
           empty_row],
          4)"
proof -
  let ?bad = "Box 31 (Some NoFrame) None []"
  let ?nested = "Box 12 None (Some RowGroupLayout) [Box 13 None None [], Box 14 None (Some PlainLayout) []]"
  let ?sf = "Box 11 (Some (BoxFrame ?nested)) None []"
  let ?row = "Box 15 None (Some (GridPartLayout 0)) [Box 16 None None [], Box 17 None None []]"
  let ?plain = "Box 18 None None []"
  let ?two = "[empty_row, empty_row]"
  let ?five = "[empty_row, empty_row, empty_row, empty_row, empty_row]"
  note a = traversals_need_effective_children [of ?bad broken_group row_parts "{}" 0 0 ?two]
  note b = traversals_need_effective_children [of ?bad example_group row_parts "{}" 0 0 ?five]
  have s: "scrollFrame ?bad = Some NoFrame" by simp
  have m: "?bad \<in> set (childBoxes broken_group)" by (simp add: broken_group_def)
  have rb: "logical_rows row_parts broken_group = [\<lparr>mBox = Some 32, mIsBogus = True\<rparr>]"
    by (simp add: logical_rows_def broken_group_def child_rows.simps CheckForScrollFrame_def Init_def)
  from a s have ck: "CheckForScrollFrame ?bad = ([''Error no scroll frame!!''], None)" by blast
  from a s m have nt: "\<not> traversable (childBoxes broken_group)" by blast
  from a nt rb have f:
    "DirtyRows row_parts (Some broken_group) {} = Inl NullDeref"
    "CountRowsColumns row_parts (Some broken_group) 0 0 = Inl NullDeref"
    "BuildRows row_parts (Some broken_group) ?two = Inl NullDeref"
    by simp_all
  have kids: "childBoxes example_group = [?sf, ?row, ?plain]" by (simp add: example_group_def)
  have tr: "traversable (childBoxes example_group)" by (rule example_traversable)
  have pc: "parts_consistent row_parts" by (rule row_parts_consistent)
  have re: "logical_rows row_parts example_group =
      [\<lparr>mBox = Some 13, mIsBogus = True\<rparr>, \<lparr>mBox = Some 14, mIsBogus = True\<rparr>,
       \<lparr>mBox = Some 15, mIsBogus = False\<rparr>, \<lparr>mBox = Some 18, mIsBogus = True\<rparr>]"
    by (simp add: logical_rows_def example_group_def child_rows.simps CheckForScrollFrame_def
        row_parts_def Init_def)
  have fm: "forwarded_marks row_parts ?sf = {12}" "forwarded_marks row_parts ?row = {15}"
    "forwarded_marks row_parts ?plain = {}"
    by (simp_all add: forwarded_marks.simps [of _ ?sf] forwarded_marks.simps [of _ ?row]
        forwarded_marks.simps [of _ ?plain] forwarded_marks.simps [of _ "Box 13 None None []"]
        forwarded_marks.simps [of _ "Box 14 None (Some PlainLayout) []"]
        CheckForScrollFrame_def row_parts_def)
  have id: "box_id example_group = 10" by (simp add: example_group_def)
  from b tr have "DirtyRows row_parts (Some example_group) {} =
      Inr (NS_OK, insert (box_id example_group) {} \<union>
                  (\<Union>child\<in>set (childBoxes example_group). forwarded_marks row_parts child))"
    by blast
  then have d: "DirtyRows row_parts (Some example_group) {} = Inr (NS_OK, {10, 12, 15})"
    by (simp add: kids id fm insert_commute del: DirtyRows.simps)
  from b tr pc obtain r' c' where
    "CountRowsColumns row_parts (Some example_group) 0 0 = Inr (NS_OK, r', c')"
    "r' = 0 + word_of_nat (length (logical_rows row_parts example_group))"
    by blast
  then have c: "\<exists>c'. CountRowsColumns row_parts (Some example_group) 0 0 = Inr (NS_OK, 4, c')"
    by (simp add: re)
  from b tr re have bl: "BuildRows row_parts (Some example_group) ?five =
     Inr (NS_OK,
          [\<lparr>mBox = Some 13, mIsBogus = True\<rparr>, \<lparr>mBox = Some 14, mIsBogus = True\<rparr>,
           \<lparr>mBox = Some 15, mIsBogus = False\<rparr>, \<lparr>mBox = Some 18, mIsBogus = True\<rparr>,
           empty_row],
          4)"
    by simp
  from s ck m nt rb f tr pc re d c bl show ?thesis by simp
qed

text \<open>
  Claim C6 as it was stated: a row group whose first child is a scroll frame with
  no scrolled frame, followed by a plain box. \<^verbatim>\<open>CheckForScrollFrame\<close> returns
  null for the first child, and each traversal then calls
  \<^verbatim>\<open>deepChild->GetLayoutManager\<close> through that null pointer: none of them goes
  on to the second child.
\<close>

theorem missing_scrolled_box_counterexample:
  "childBoxes broken_group = [Box 31 (Some NoFrame) None [], Box 32 None None []] \<and>
   CheckForScrollFrame (Box 31 (Some NoFrame) None []) = ([''Error no scroll frame!!''], None) \<and>
   DirtyRows row_parts (Some broken_group) {} = Inl NullDeref \<and>
   CountRowsColumns row_parts (Some broken_group) 0 0 = Inl NullDeref \<and>
   BuildRows row_parts (Some broken_group) [empty_row, empty_row] = Inl NullDeref"
  by (simp add: broken_group_def CheckForScrollFrame_def)

text \<open>
  Claim C7. \<^verbatim>\<open>DirtyRows\<close> marks its box and adds, for each direct child, the
  marks forwarded for that child and nothing else: none for a child that is no
  monument, the marks of \<^verbatim>\<open>DirtyRows\<close> on the nested row group found behind the
  scroll frame, the marks of another grid part. The result is the same for every
  order of the children. (Every child visited is taken to have an effective
  child; claim C6 is about the other case.)
\<close>

theorem DirtyRows_marks_box_and_monuments:
  "(traversable (childBoxes aBox) \<longrightarrow>
      DirtyRows E (Some aBox) aState =
        Inr (NS_OK, insert (box_id aBox) aState \<union>
                    (\<Union>child\<in>set (childBoxes aBox). forwarded_marks E child))) \<and>
   (\<forall>child\<in>set (childBoxes aBox). is_bogus child \<longrightarrow> forwarded_marks E child = {}) \<and>
   (\<forall>child\<in>set (childBoxes aBox). \<forall>deepChild.
      snd (CheckForScrollFrame child) = Some deepChild \<and> layoutManager deepChild = Some RowGroupLayout \<and>
      traversable (childBoxes deepChild) \<longrightarrow>
        DirtyRows E (Some deepChild) {} = Inr (NS_OK, forwarded_marks E child)) \<and>
   (\<forall>child\<in>set (childBoxes aBox). \<forall>deepChild p.
      snd (CheckForScrollFrame child) = Some deepChild \<and> layoutManager deepChild = Some (GridPartLayout p) \<longrightarrow>
        forwarded_marks E child = part_DirtyRows E p deepChild) \<and>
   (\<forall>siblings. mset siblings = mset (childBoxes aBox) \<longrightarrow>
      DirtyRows E (Some (Box (box_id aBox) (scrollFrame aBox) (layoutManager aBox) siblings)) aState =
      DirtyRows E (Some aBox) aState)"
proof -
  have perm: "DirtyRows E (Some (Box (box_id aBox) (scrollFrame aBox) (layoutManager aBox) siblings)) aState =
      DirtyRows E (Some aBox) aState" if "mset siblings = mset (childBoxes aBox)" for siblings
  proof -
    from that have s: "set siblings = set (childBoxes aBox)" by (rule mset_eq_setD)
    then have "traversable siblings = traversable (childBoxes aBox)"
      using traversable_set [of siblings] traversable_set [of "childBoxes aBox"] by simp
    with s show ?thesis by (simp add: DirtyRows_eq del: DirtyRows.simps)
  qed
  have bogus: "forwarded_marks E child = {}" if "is_bogus child" for child
    using that by (auto simp: is_bogus_def forwarded_marks.simps [of E child] split: option.splits)
  have group: "DirtyRows E (Some d) {} = Inr (NS_OK, forwarded_marks E child)"
    if "snd (CheckForScrollFrame child) = Some d" "layoutManager d = Some RowGroupLayout"
      "traversable (childBoxes d)" for child d
    using that by (simp add: DirtyRows_eq forwarded_marks.simps [of E child] del: DirtyRows.simps)
  have part: "forwarded_marks E child = part_DirtyRows E p d"
    if "snd (CheckForScrollFrame child) = Some d" "layoutManager d = Some (GridPartLayout p)" for child d p
    using that by (simp add: forwarded_marks.simps [of E child])
  show ?thesis
    using perm bogus group part by (simp add: DirtyRows_eq del: DirtyRows.simps)
qed

theorem DirtyRows_marks_box_and_monuments_witness:
  "traversable (childBoxes example_group) \<and>
   DirtyRows row_parts (Some example_group) {9} = Inr (NS_OK, {10, 12, 15, 9}) \<and>
   is_bogus (Box 18 None None []) \<and> forwarded_marks row_parts (Box 18 None None []) = {} \<and>
   mset example_shuffled = mset (childBoxes example_group) \<and>
   DirtyRows row_parts (Some (Box 10 None (Some RowGroupLayout) example_shuffled)) {9} =
     Inr (NS_OK, {10, 12, 15, 9}) \<and>
   DirtyRows row_parts (Some (Box 12 None (Some RowGroupLayout)
      [Box 13 None None [], Box 14 None (Some PlainLayout) []])) {} = Inr (NS_OK, {12}) \<and>
   forwarded_marks row_parts
     (Box 15 None (Some (GridPartLayout 0)) [Box 16 None None [], Box 17 None None []]) = {15}"
proof -
  note t = DirtyRows_marks_box_and_monuments [of example_group row_parts "{9}"]
  let ?nested = "Box 12 None (Some RowGroupLayout) [Box 13 None None [], Box 14 None (Some PlainLayout) []]"
  let ?sf = "Box 11 (Some (BoxFrame ?nested)) None []"
  let ?row = "Box 15 None (Some (GridPartLayout 0)) [Box 16 None None [], Box 17 None None []]"
  let ?plain = "Box 18 None None []"
  have kids: "childBoxes example_group = [?sf, ?row, ?plain]" by (simp add: example_group_def)
  have tr: "traversable (childBoxes example_group)" by (rule example_traversable)
  have b: "is_bogus ?plain" by (simp add: is_bogus_def CheckForScrollFrame_def)
  have m: "mset example_shuffled = mset (childBoxes example_group)"
    by (simp add: example_shuffled_def kids)
  have ids: "box_id example_group = 10" "scrollFrame example_group = None"
    "layoutManager example_group = Some RowGroupLayout"
    by (simp_all add: example_group_def)
  from t b kids have f8: "forwarded_marks row_parts ?plain = {}" by simp
  from t kids have f5: "forwarded_marks row_parts ?row = {15}"
    by (simp add: CheckForScrollFrame_def row_parts_def)
  have u: "snd (CheckForScrollFrame ?sf) = Some ?nested" by (simp add: CheckForScrollFrame_def)
  have tn: "traversable (childBoxes ?nested)" by (simp add: CheckForScrollFrame_def)
  from t kids u tn have n: "DirtyRows row_parts (Some ?nested) {} = Inr (NS_OK, forwarded_marks row_parts ?sf)"
    by simp
  have f1: "forwarded_marks row_parts ?sf = {12}"
    by (simp add: forwarded_marks.simps [of _ ?sf] forwarded_marks.simps [of _ "Box 13 None None []"]
        forwarded_marks.simps [of _ "Box 14 None (Some PlainLayout) []"] CheckForScrollFrame_def)
  from t tr have d: "DirtyRows row_parts (Some example_group) {9} = Inr (NS_OK, {10, 12, 15, 9})"
    by (auto simp: kids ids f1 f5 f8)
  from t m have "DirtyRows row_parts (Some (Box 10 None (Some RowGroupLayout) example_shuffled)) {9} =
      DirtyRows row_parts (Some example_group) {9}"
    by (simp add: ids)
  with d have s: "DirtyRows row_parts (Some (Box 10 None (Some RowGroupLayout) example_shuffled)) {9} =
      Inr (NS_OK, {10, 12, 15, 9})" by simp
  from tr d b f8 m s n f1 f5 show ?thesis by simp
qed

text \<open>
  Claim C8. \<^verbatim>\<open>ChildAddedOrRemoved\<close> looks up the grid and the index of the box and
  the orientation of the box. When a grid is found, that grid receives one
  notification with that index and that orientation; when none is found, nothing
  is notified and the state is unchanged. The result is \<^verbatim>\<open>NS_OK\<close> in both cases.
\<close>

theorem ChildAddedOrRemoved_notifies:
  "(GetGrid H aBox = Some (grid, index) \<longrightarrow>
      ChildAddedOrRemoved H aBox aState =
        (NS_OK, aState @ [(grid_id grid, index, IsHorizontal H aBox)])) \<and>
   (GetGrid H aBox = None \<longrightarrow> ChildAddedOrRemoved H aBox aState = (NS_OK, aState))"
  by (simp add: ChildAddedOrRemoved_def RowAddedOrRemoved_def)

theorem ChildAddedOrRemoved_notifies_witness:
  "GetGrid (example_host 100 15) example_group = Some (example_grid 15, 4) \<and>
   ChildAddedOrRemoved (example_host 100 15) example_group [(7, 1, True)] =
     (NS_OK, [(7, 1, True), (7, 4, True)]) \<and>
   GetGrid (example_host 100 15) (Box 3 None None []) = None \<and>
   ChildAddedOrRemoved (example_host 100 15) (Box 3 None None []) [(7, 1, True)] =
     (NS_OK, [(7, 1, True)])"
proof -
  have g: "GetGrid (example_host 100 15) example_group = Some (example_grid 15, 4)"
    by (simp add: example_host_def example_group_def)
  have n: "GetGrid (example_host 100 15) (Box 3 None None []) = None"
    by (simp add: example_host_def)
  from ChildAddedOrRemoved_notifies [of "example_host 100 15" example_group "example_grid 15" 4 "[(7, 1, True)]"] g
  have 1: "ChildAddedOrRemoved (example_host 100 15) example_group [(7, 1, True)] =
     (NS_OK, [(7, 1, True), (7, 4, True)])"
    by (simp add: example_host_def example_grid_def)
  from ChildAddedOrRemoved_notifies [of "example_host 100 15" "Box 3 None None []" "example_grid 15" 4 "[(7, 1, True)]"] n
  have 2: "ChildAddedOrRemoved (example_host 100 15) (Box 3 None None []) [(7, 1, True)] =
     (NS_OK, [(7, 1, True)])"
    by simp
  from g n 1 2 show ?thesis by simp
qed

text \<open>
  Claim C9. With a null box the traversals do nothing and return success:
  \<^verbatim>\<open>DirtyRows\<close> marks nothing, \<^verbatim>\<open>CountRowsColumns\<close> leaves both counters as
  they were, and \<^verbatim>\<open>BuildRows\<close> stores the count zero and writes no slot of the
  buffer.
\<close>

theorem null_box_is_a_no_op:
  "DirtyRows E None aState = Inr (NS_OK, aState) \<and>
   CountRowsColumns E None aRowCount aComputedColumnCount =
     Inr (NS_OK, aRowCount, aComputedColumnCount) \<and>
   BuildRows E None aRows = Inr (NS_OK, aRows, 0)"
  by simp

text \<open>
  Claim C10. \<^verbatim>\<open>CountRowsColumns\<close> adds to the counters it is given. The row count
  it returns is the row count it was given plus the number of logical rows of the
  box (in 32-bit arithmetic, the other grid parts counting the rows they build).
  The column count is changed by the other grid parts only: when they leave it
  alone it comes back as given, and so it does for a box whose children are all
  bogus, where the row count grows by the number of children.
\<close>

theorem CountRowsColumns_accumulates:
  "(parts_consistent E \<and> CountRowsColumns E (Some aBox) r c = Inr (rv, r', c') \<longrightarrow>
      r' = r + word_of_nat (length (logical_rows E aBox))) \<and>
   ((\<forall>p b r c. snd (part_CountRowsColumns E p b (r, c)) = c) \<and>
    CountRowsColumns E (Some aBox) r c = Inr (rv, r', c') \<longrightarrow> c' = c) \<and>
   ((\<forall>child\<in>set (childBoxes aBox). is_bogus child) \<longrightarrow>
      CountRowsColumns E (Some aBox) r c = Inr (NS_OK, r + word_of_nat (length (childBoxes aBox)), c))"
proof -
  have rows: "r' = r + word_of_nat (length (logical_rows E aBox))"
    if "parts_consistent E" "CountRowsColumns E (Some aBox) r c = Inr (rv, r', c')"
  proof -
    from that(2) have "CountRowsColumns_loop E (childBoxes aBox) r c = Inr (r', c')"
      by (auto split: sum.splits)
    from CountRowsColumns_loop_rows [OF that(1) this] show ?thesis
      by (simp add: logical_rows_def)
  qed
  have cols: "c' = c"
    if "\<forall>p b r c. snd (part_CountRowsColumns E p b (r, c)) = c"
      "CountRowsColumns E (Some aBox) r c = Inr (rv, r', c')"
  proof -
    from that(2) have "CountRowsColumns_loop E (childBoxes aBox) r c = Inr (r', c')"
      by (auto split: sum.splits)
    from CountRowsColumns_loop_columns [OF that(1) this] show ?thesis .
  qed
  have bogus: "CountRowsColumns E (Some aBox) r c =
      Inr (NS_OK, r + word_of_nat (length (childBoxes aBox)), c)"
    if "\<forall>child\<in>set (childBoxes aBox). is_bogus child"
    using CountRowsColumns_loop_bogus [OF that] by simp
  from rows cols bogus show ?thesis by blast
qed

theorem CountRowsColumns_accumulates_witness:
  "parts_consistent row_parts \<and>
   CountRowsColumns row_parts (Some example_group) 7 1 = Inr (NS_OK, 11, 2) \<and>
   length (logical_rows row_parts example_group) = 4 \<and>
   snd (part_CountRowsColumns nested_grid_parts 0 example_group (7, 1)) = 1 \<and>
   CountRowsColumns nested_grid_parts (Some example_group) 7 1 = Inr (NS_OK, 11, 1) \<and>
   is_bogus (Box 21 None None []) \<and> is_bogus (Box 22 None None []) \<and> is_bogus (Box 23 None None []) \<and>
   CountRowsColumns row_parts (Some plain_group) 7 1 = Inr (NS_OK, 10, 1)"
proof -
  have c1: "CountRowsColumns row_parts (Some example_group) 7 1 = Inr (NS_OK, 11, 2)"
    by (simp add: example_group_def CheckForScrollFrame_def row_parts_def)
  have c2: "CountRowsColumns nested_grid_parts (Some example_group) 7 1 = Inr (NS_OK, 11, 1)"
    by (simp add: example_group_def CheckForScrollFrame_def nested_grid_parts_def)
  have keep: "\<forall>p b r c. snd (part_CountRowsColumns nested_grid_parts p b (r, c)) = c"
    by (simp add: nested_grid_parts_def)
  have b: "is_bogus (Box 21 None None [])" "is_bogus (Box 22 None None [])" "is_bogus (Box 23 None None [])"
    by (simp_all add: is_bogus_def CheckForScrollFrame_def)
  then have all: "\<forall>child\<in>set (childBoxes plain_group). is_bogus child"
    by (simp add: plain_group_def)
  from CountRowsColumns_accumulates [of row_parts example_group 7 1 NS_OK 11 2]
    row_parts_consistent c1
  have "(11 :: 32 word) = 7 + word_of_nat (length (logical_rows row_parts example_group))" by simp
  moreover have "length (logical_rows row_parts example_group) = 4"
    by (simp add: logical_rows_def example_group_def child_rows.simps CheckForScrollFrame_def row_parts_def)
  moreover from CountRowsColumns_accumulates [of nested_grid_parts example_group 7 1 NS_OK 11 1] keep c2
  have "snd (part_CountRowsColumns nested_grid_parts 0 example_group (7, 1)) = 1" by simp
  moreover from CountRowsColumns_accumulates [of row_parts plain_group 7 1] all
  have "CountRowsColumns row_parts (Some plain_group) 7 1 = Inr (NS_OK, 10, 1)"
    by (simp add: plain_group_def)
  ultimately show ?thesis using row_parts_consistent c1 c2 b by simp
qed

section \<open>The scenarios of the specification\<close>

text \<open>
  Section 8 of the specification: a row group with one nested monument that has
  two bogus rows, and one bogus row of its own. \<^verbatim>\<open>CountRowsColumns\<close> reports
  three rows, and \<^verbatim>\<open>BuildRows\<close> into a buffer of three slots writes the two rows
  of the monument and then the row of the group.
\<close>

theorem scenario_nested_monument:
  "CountRowsColumns row_parts (Some scenario_rows) 0 0 = Inr (NS_OK, 3, 0) \<and>
   BuildRows row_parts (Some scenario_rows) [empty_row, empty_row, empty_row] =
     Inr (NS_OK,
          [\<lparr>mBox = Some 42, mIsBogus = True\<rparr>, \<lparr>mBox = Some 43, mIsBogus = True\<rparr>,
           \<lparr>mBox = Some 44, mIsBogus = True\<rparr>],
          3)"
  by (simp add: scenario_rows_def CheckForScrollFrame_def Init_def slots_from_def write_slot_def)

text \<open>
  Section 8 of the specification: \<^verbatim>\<open>DirtyRows\<close> on a group with a monument
  behind a scroll frame marks the group and the monument, not the scroll frame,
  and goes past neither the bogus row of the monument nor the plain child of the
  group, whose own child is a row group.
\<close>

theorem scenario_dirty_through_scroll_frame:
  "DirtyRows row_parts (Some scenario_dirty) {} = Inr (NS_OK, {50, 52})"
  by (simp add: scenario_dirty_def CheckForScrollFrame_def MarkDirty_def insert_commute)

end
